theory Spec2Isabelle
  imports Complex_Main "HOL-Library.Word"
begin

section \<open>ESP32 motor controller: embedding of the firmware\<close>

text \<open>
  The firmware keeps its motion state in global variables and is driven by the Arduino
  \<open>loop()\<close>. The embedding passes the globals as a record and returns, next to the
  new record, the list of outputs the call produced (pin writes, delays, lines sent to
  the host on \<open>Serial1\<close>, lines printed on the debug port).

  Conventions of the embedding:
  \<^item> \<open>long\<close> step counters are \<open>int\<close>: targets are clamped to 0..32000 steps and the
    counters move by one step at a time, far from the 32-bit range;
  \<^item> \<open>unsigned long\<close> microsecond clocks are \<open>32 word\<close>, so that \<open>micros()\<close>
    differences wrap as they do on the ESP32;
  \<^item> \<open>float\<close> values are idealised as \<open>real\<close>: rounding, infinities and NaN are not
    modelled. The one conversion that C++ leaves undefined where the idealised value
    is out of range (float to \<open>unsigned long\<close>) is an explicit error branch;
  \<^item> \<open>micros()\<close>, the limit switch and the result of \<open>deserializeJson\<close> are inputs.
\<close>

subsection \<open>Configuration constants\<close>

definition MOTOR_A_STEP_PIN :: nat where "MOTOR_A_STEP_PIN = 2"
definition MOTOR_A_DIR_PIN :: nat where "MOTOR_A_DIR_PIN = 3"
definition MOTOR_A_EN_PIN :: nat where "MOTOR_A_EN_PIN = 4"
definition MOTOR_B_STEP_PIN :: nat where "MOTOR_B_STEP_PIN = 7"
definition MOTOR_B_DIR_PIN :: nat where "MOTOR_B_DIR_PIN = 8"
definition MOTOR_B_EN_PIN :: nat where "MOTOR_B_EN_PIN = 9"
definition MAGNET_1_PIN :: nat where "MAGNET_1_PIN = 16"
definition MAGNET_2_PIN :: nat where "MAGNET_2_PIN = 17"
definition MAGNET_3_PIN :: nat where "MAGNET_3_PIN = 18"
definition MAGNET_4_PIN :: nat where "MAGNET_4_PIN = 19"

definition STEPS_PER_MM :: int where "STEPS_PER_MM = 80"
definition DEFAULT_SPEED :: int where "DEFAULT_SPEED = 2000"
definition MAX_SPEED :: int where "MAX_SPEED = 8000"
definition HOMING_SPEED :: int where "HOMING_SPEED = 500"
definition MAX_X_MM :: real where "MAX_X_MM = 400"
definition MAX_Y_MM :: real where "MAX_Y_MM = 400"

subsection \<open>Outputs\<close>

text \<open>
  A line written to the host by \<open>sendStatus\<close> (status, optional message) or by
  \<open>sendPositionUpdate\<close> (x, y in millimetres, homed).
\<close>

datatype message = Status string "string option" | Position real real bool

text \<open>
  \<open>Debug\<close> is a text printed on the debug port, \<open>DebugNum\<close> a number printed
  there (its formatting is not modelled).
\<close>

datatype event =
    DigitalWrite nat bool
  | DelayMicroseconds nat
  | LedcWrite nat int
  | Uart message
  | Debug string
  | DebugNum real

subsection \<open>Global variables\<close>

record state =
  currentStepsX :: int
  currentStepsY :: int
  currentPosX :: real
  currentPosY :: real
  targetStepsX :: int
  targetStepsY :: int
  isMoving :: bool
  isHomed :: bool
  currentSpeed :: real
  stepDelay :: "32 word"
  magnetStates :: "bool list"
  lastStepTime :: "32 word"

text \<open>The initialisers of the globals.\<close>

definition initial_state :: state where
  "initial_state =
     \<lparr> currentStepsX = 0, currentStepsY = 0, currentPosX = 0, currentPosY = 0,
       targetStepsX = 0, targetStepsY = 0, isMoving = False, isHomed = False,
       currentSpeed = of_int DEFAULT_SPEED,
       stepDelay = word_of_int (1000000 div DEFAULT_SPEED),
       magnetStates = [False, False, False, False], lastStepTime = 0 \<rparr>"

subsection \<open>Numeric conversions\<close>

text \<open>The C++ cast of a float to an integer type truncates towards zero.\<close>

definition trunc :: "real \<Rightarrow> int" where
  "trunc r = (if 0 \<le> r then \<lfloor>r\<rfloor> else \<lceil>r\<rceil>)"

text \<open>
  Conversion to \<open>unsigned long\<close>: undefined (\<open>None\<close>) when the truncated value is not
  representable in 32 bits.
\<close>

definition ulong_of_float :: "real \<Rightarrow> 32 word option" where
  "ulong_of_float r =
     (if - 1 < r \<and> r < 4294967296 then Some (word_of_int (trunc r)) else None)"

text \<open>
  \<open>stepDelay = 1000000 / currentSpeed\<close>: a float division, converted to
  \<open>unsigned long\<close>. A speed of zero gives an infinite quotient, which has no
  \<open>unsigned long\<close> value.
\<close>

definition delay_of_speed :: "real \<Rightarrow> 32 word option" where
  "delay_of_speed v = (if v = 0 then None else ulong_of_float (1000000 / v))"

text \<open>The Arduino macro \<open>constrain(amt, low, high)\<close>.\<close>

definition constrain :: "'a::linorder \<Rightarrow> 'a \<Rightarrow> 'a \<Rightarrow> 'a" where
  "constrain amt low high = (if amt < low then low else if amt > high then high else amt)"

subsection \<open>Status reporting\<close>

definition sendStatus :: "string \<Rightarrow> string option \<Rightarrow> event list" where
  "sendStatus status msg = [Uart (Status status msg)]"

definition sendPositionUpdate :: "state \<Rightarrow> event list" where
  "sendPositionUpdate st = [Uart (Position (currentPosX st) (currentPosY st) (isHomed st))]"

subsection \<open>Stepping\<close>

text \<open>One step pulse of \<open>stepMotors\<close> on a step pin: high, 5 microseconds, low.\<close>

definition pulse :: "nat \<Rightarrow> event list" where
  "pulse pin = [DigitalWrite pin True, DelayMicroseconds 5, DigitalWrite pin False]"

text \<open>
  \<open>stepMotors()\<close>; the second argument is the value \<open>micros()\<close> returns in this call.
\<close>

definition stepMotors :: "state \<Rightarrow> 32 word \<Rightarrow> state \<times> event list" where
  "stepMotors st currentTime =
     (let remainingX = targetStepsX st - currentStepsX st;
          remainingY = targetStepsY st - currentStepsY st
      in if remainingX = 0 \<and> remainingY = 0 then
           (let st1 = st\<lparr>isMoving := False\<rparr>
            in (st1, sendPositionUpdate st1 @ [Debug ''Movement complete'']))
         else
           (let stepsA = remainingX + remainingY;
                stepsB = remainingX - remainingY;
                dirs = [DigitalWrite MOTOR_A_DIR_PIN (stepsA > 0),
                        DigitalWrite MOTOR_B_DIR_PIN (stepsB > 0)]
            in if currentTime - lastStepTime st \<ge> stepDelay st then
                 (let (stA, outA) =
                        (if stepsA \<noteq> 0 then
                           (st\<lparr>currentStepsX :=
                                 currentStepsX st + (if stepsA > 0 then 1 else - 1)\<rparr>,
                            pulse MOTOR_A_STEP_PIN)
                         else (st, []));
                      (stB, outB) =
                        (if stepsB \<noteq> 0 then
                           (stA\<lparr>currentStepsY :=
                                  currentStepsY stA +
                                    (if stepsA = 0 then (if stepsB > 0 then - 1 else 1)
                                     else (if remainingY > 0 then 1 else - 1))\<rparr>,
                            pulse MOTOR_B_STEP_PIN)
                         else (stA, []))
                  in (stB\<lparr>currentPosX := real_of_int (currentStepsX stB) / real_of_int STEPS_PER_MM,
                          currentPosY := real_of_int (currentStepsY stB) / real_of_int STEPS_PER_MM,
                          lastStepTime := currentTime\<rparr>,
                      dirs @ outA @ outB))
               else (st, dirs)))"

subsection \<open>Homing\<close>

text \<open>
  The limit switch is an input: \<open>limitHigh k\<close> tells whether the \<open>k\<close>-th
  \<open>digitalRead(LIMIT_SWITCH_PIN)\<close> of a homing run returns \<open>HIGH\<close> (not triggered).
  The seek loop has no bound in the firmware: \<open>seek limitHigh k\<close> is the number of
  seek steps made when the loop leaves, \<open>None\<close> when it never does.
\<close>

partial_function (option) seek :: "(nat \<Rightarrow> bool) \<Rightarrow> nat \<Rightarrow> nat option" where
  "seek limitHigh k = (if limitHigh k then seek limitHigh (Suc k) else Some k)"

declare seek.simps [code]

text \<open>One iteration of either homing loop: both step pins pulsed together.\<close>

definition step_both :: "event list" where
  "step_both =
     [DigitalWrite MOTOR_A_STEP_PIN True, DigitalWrite MOTOR_B_STEP_PIN True,
      DelayMicroseconds 5,
      DigitalWrite MOTOR_A_STEP_PIN False, DigitalWrite MOTOR_B_STEP_PIN False,
      DelayMicroseconds (nat (1000000 div HOMING_SPEED))]"

text \<open>The part of \<open>homeGantry()\<close> before the seek loop.\<close>

definition homing_start :: "state \<Rightarrow> state \<times> event list" where
  "homing_start st =
     (st\<lparr>isHomed := False\<rparr>,
      [Debug ''Starting homing sequence...'',
       DigitalWrite MOTOR_A_DIR_PIN False, DigitalWrite MOTOR_B_DIR_PIN False])"

text \<open>The back-off: \<open>for (int i = 0; i < 100; i++)\<close>.\<close>

definition back_off :: "event list" where
  "back_off =
     [Debug ''Limit switch triggered'',
      DigitalWrite MOTOR_A_DIR_PIN True, DigitalWrite MOTOR_B_DIR_PIN True]
     @ concat (replicate 100 step_both)"

text \<open>The part of \<open>homeGantry()\<close> after the back-off.\<close>

definition homing_finish :: "state \<Rightarrow> state \<times> event list" where
  "homing_finish st =
     (st\<lparr>currentStepsX := 0, currentStepsY := 0, currentPosX := 0, currentPosY := 0,
         isHomed := True\<rparr>,
      [Debug ''Homing complete''] @ sendStatus ''homed'' (Some ''Gantry homed to (0, 0)''))"

definition homeGantry :: "(nat \<Rightarrow> bool) \<Rightarrow> state \<Rightarrow> (state \<times> event list) option" where
  "homeGantry limitHigh st =
     (let (st1, out1) = homing_start st
      in case seek limitHigh 0 of
           None \<Rightarrow> None
         | Some n \<Rightarrow>
             (let (st2, out2) = homing_finish st1
              in Some (st2, out1 @ concat (replicate n step_both) @ back_off @ out2)))"

subsection \<open>Movement commands\<close>

definition moveToAbsolute :: "real \<Rightarrow> real \<Rightarrow> state \<Rightarrow> state \<times> event list" where
  "moveToAbsolute targetX targetY st =
     (if \<not> isHomed st then
        (st, [Debug ''ERROR: Cannot move - not homed'']
             @ sendStatus ''error'' (Some ''Gantry not homed''))
      else
        (let tx = constrain targetX 0 MAX_X_MM;
             ty = constrain targetY 0 MAX_Y_MM
         in (st\<lparr>targetStepsX := trunc (tx * real_of_int STEPS_PER_MM),
                targetStepsY := trunc (ty * real_of_int STEPS_PER_MM),
                isMoving := True\<rparr>,
             [Debug ''Moving to ('', DebugNum tx, Debug '', '', DebugNum ty, Debug '')''])))"

definition moveRelative :: "real \<Rightarrow> real \<Rightarrow> state \<Rightarrow> state \<times> event list" where
  "moveRelative deltaX deltaY st =
     moveToAbsolute (currentPosX st + deltaX) (currentPosY st + deltaY) st"

subsection \<open>Electromagnets and fans\<close>

definition setMagnet :: "int \<Rightarrow> bool \<Rightarrow> state \<Rightarrow> state \<times> event list" where
  "setMagnet magnetIndex on st =
     (if magnetIndex < 0 \<or> magnetIndex \<ge> 4 then (st, [])
      else
        (st\<lparr>magnetStates := (magnetStates st)[nat magnetIndex := on]\<rparr>,
         [DigitalWrite ([MAGNET_1_PIN, MAGNET_2_PIN, MAGNET_3_PIN, MAGNET_4_PIN] ! nat magnetIndex) on,
          Debug ''Magnet '', DebugNum (real_of_int (magnetIndex + 1)),
          Debug (if on then '' ON'' else '' OFF'')]))"

text \<open>\<open>for (int i = 0; i < 4; i++) setMagnet(i, state)\<close>, from index \<open>i\<close> on.\<close>

function setMagnets_from :: "int \<Rightarrow> bool \<Rightarrow> state \<Rightarrow> state \<times> event list" where
  "setMagnets_from i on st =
     (if i < 4 then
        (let (st1, out1) = setMagnet i on st;
             (st2, out2) = setMagnets_from (i + 1) on st1
         in (st2, out1 @ out2))
      else (st, []))"
  by pat_completeness auto
termination
  by (relation "measure (\<lambda>(i, on, st). nat (4 - i))") auto

definition setAllMagnets :: "bool \<Rightarrow> state \<Rightarrow> state \<times> event list" where
  "setAllMagnets on st = setMagnets_from 0 on st"

definition setFanSpeed :: "int \<Rightarrow> int \<Rightarrow> event list" where
  "setFanSpeed fanIndex pwmValue =
     (if fanIndex < 0 \<or> fanIndex \<ge> 4 then []
      else
        (let pwm = constrain pwmValue 0 255
         in [LedcWrite (nat fanIndex) pwm,
             Debug ''Fan '', DebugNum (real_of_int (fanIndex + 1)),
             Debug '' speed: '', DebugNum (real_of_int pwm)]))"

subsection \<open>Commands\<close>

text \<open>
  A member of the received JSON object, as ArduinoJson stores it: an integer, a float,
  a string or null (booleans, arrays and nested objects are not modelled). The object is
  a map from keys to members, \<open>cmd.containsKey(key)\<close> is \<open>cmd key \<noteq> None\<close>; a document
  that is not an object behaves as the empty object for every accessor used here.
\<close>

datatype jval = JInt int | JFloat real | JStr string | JNull

type_synonym jobject = "string \<rightharpoonup> jval"

text \<open>\<open>const char* s = cmd[key]\<close>: the null pointer unless the member is a string.\<close>

definition as_cstr :: "jval option \<Rightarrow> string option" where
  "as_cstr v = (case v of Some (JStr s) \<Rightarrow> Some s | _ \<Rightarrow> None)"

text \<open>\<open>cmd[key] | d\<close> with a floating default: the member if it is a number, else \<open>d\<close>.\<close>

definition or_float :: "jval option \<Rightarrow> real \<Rightarrow> real" where
  "or_float v d =
     (case v of Some (JInt i) \<Rightarrow> real_of_int i | Some (JFloat r) \<Rightarrow> r | _ \<Rightarrow> d)"

text \<open>
  \<open>cmd[key] | d\<close> with an \<open>int\<close> default: the member if it is an integer that fits
  an \<open>int\<close>, else \<open>d\<close>.
\<close>

definition or_int :: "jval option \<Rightarrow> int \<Rightarrow> int" where
  "or_int v d =
     (case v of
        Some (JInt i) \<Rightarrow> (if - 2147483648 \<le> i \<and> i \<le> 2147483647 then i else d)
      | _ \<Rightarrow> d)"

text \<open>
  \<open>float f = cmd[key]\<close>: the member if it is a number, else 0 (the library's
  conversion of a string that spells a number is not modelled).
\<close>

definition as_float :: "jval option \<Rightarrow> real" where
  "as_float v = or_float v 0"

text \<open>\<open>int n = cmd[key]\<close>: a number that fits an \<open>int\<close>, truncated; else 0.\<close>

definition as_int :: "jval option \<Rightarrow> int" where
  "as_int v =
     (let n = (case v of Some (JInt i) \<Rightarrow> i | Some (JFloat r) \<Rightarrow> trunc r | _ \<Rightarrow> 0)
      in if - 2147483648 \<le> n \<and> n \<le> 2147483647 then n else 0)"

text \<open>
  What a call can do instead of returning: \<open>NoReturn\<close>, the homing seek loop never
  leaves; \<open>UndefinedConversion\<close>, the step delay has no \<open>unsigned long\<close> value.
\<close>

datatype error = NoReturn | UndefinedConversion

text \<open>
  The two assignments \<open>currentSpeed = cmd["speed"]; stepDelay = 1000000 / currentSpeed\<close>.
\<close>

definition set_speed :: "real \<Rightarrow> state \<Rightarrow> error + state" where
  "set_speed v st =
     (case delay_of_speed v of
        None \<Rightarrow> Inl UndefinedConversion
      | Some d \<Rightarrow> Inr (st\<lparr>currentSpeed := v, stepDelay := d\<rparr>))"

text \<open>
  \<open>processUARTCommand()\<close>. \<open>parsed\<close> is the outcome of \<open>deserializeJson\<close> on the
  received line (\<open>None\<close>: a deserialisation error, whose text, printed after
  \<open>JSON parse error:\<close>, is not modelled), \<open>limitHigh\<close> the limit switch during this
  call.
\<close>

definition processUARTCommand ::
  "(nat \<Rightarrow> bool) \<Rightarrow> jobject option \<Rightarrow> state \<Rightarrow> error + state \<times> event list" where
  "processUARTCommand limitHigh parsed st =
     (case parsed of
        None \<Rightarrow> Inr (st, [Debug ''JSON parse error: ''])
      | Some cmd \<Rightarrow>
          (case as_cstr (cmd ''cmd'') of
             None \<Rightarrow> Inr (st, [Debug ''No 'cmd' field in JSON''])
           | Some cmdType \<Rightarrow>
               if cmdType = ''home'' then
                 (case homeGantry limitHigh st of None \<Rightarrow> Inl NoReturn | Some r \<Rightarrow> Inr r)
               else if cmdType = ''move_absolute'' then
                 (let x = or_float (cmd ''x'') 0;
                      y = or_float (cmd ''y'') 0
                  in case (if cmd ''speed'' \<noteq> None then set_speed (as_float (cmd ''speed'')) st
                           else Inr st) of
                       Inl e \<Rightarrow> Inl e
                     | Inr st1 \<Rightarrow> Inr (moveToAbsolute x y st1))
               else if cmdType = ''move_relative'' then
                 (let dx = or_float (cmd ''dx'') 0;
                      dy = or_float (cmd ''dy'') 0
                  in Inr (moveRelative dx dy st))
               else if cmdType = ''magnet_on'' then
                 (if cmd ''magnet'' \<noteq> None then
                    Inr (setMagnet (as_int (cmd ''magnet'') - 1) True st)
                  else Inr (setAllMagnets True st))
               else if cmdType = ''magnet_off'' then
                 (if cmd ''magnet'' \<noteq> None then
                    Inr (setMagnet (as_int (cmd ''magnet'') - 1) False st)
                  else Inr (setAllMagnets False st))
               else if cmdType = ''set_fan'' then
                 (let fan = or_int (cmd ''fan'') 1;
                      speed = or_int (cmd ''speed'') 128
                  in Inr (st, setFanSpeed (fan - 1) speed))
               else if cmdType = ''stop'' then
                 Inr (st\<lparr>isMoving := False,
                         targetStepsX := currentStepsX st,
                         targetStepsY := currentStepsY st\<rparr>,
                      sendStatus ''stopped'' (Some ''Movement stopped''))
               else if cmdType = ''get_position'' then
                 Inr (st, sendPositionUpdate st)
               else Inr (st, [Debug ''Unknown command: '', Debug cmdType])))"

subsection \<open>Setup and main loop\<close>

text \<open>
  \<open>setup()\<close> (named \<open>setup_boot\<close> here), as far as it touches the globals and the
  modelled outputs: motors enabled, magnets off, fans at 128, the ready status. Pin
  modes, the PWM timers and the driver configuration (with what it prints) are not
  modelled.
\<close>

definition setup_boot :: "state \<times> event list" where
  "setup_boot =
     (let (st1, out1) = setAllMagnets False initial_state
      in (st1,
          [Debug ''=== ESP32 Motor Controller Starting ==='',
           DigitalWrite MOTOR_A_EN_PIN False, DigitalWrite MOTOR_B_EN_PIN False]
          @ out1
          @ concat (map (\<lambda>i. setFanSpeed i 128) [0, 1, 2, 3])
          @ [Debug ''Pins configured'', Debug ''Setup complete. Ready for commands.'']
          @ sendStatus ''ready'' (Some ''Motor controller initialized'')))"

text \<open>The first statement of \<open>loop()\<close>: \<open>if (isMoving) stepMotors();\<close>.\<close>

definition motion :: "state \<Rightarrow> 32 word \<Rightarrow> state \<times> event list" where
  "motion st now = (if isMoving st then stepMotors st now else (st, []))"

text \<open>
  The rest of \<open>loop()\<close>: every complete line waiting on \<open>Serial1\<close> is processed, in
  order. A line is given by its deserialisation and by the limit switch's behaviour
  while it is processed.
\<close>

type_synonym line = "jobject option \<times> (nat \<Rightarrow> bool)"

fun process_lines :: "state \<Rightarrow> line list \<Rightarrow> error + state \<times> event list" where
  "process_lines st [] = Inr (st, [])"
| "process_lines st ((parsed, limitHigh) # ls) =
     (case processUARTCommand limitHigh parsed st of
        Inl e \<Rightarrow> Inl e
      | Inr (st1, out1) \<Rightarrow>
          (case process_lines st1 ls of
             Inl e \<Rightarrow> Inl e
           | Inr (st2, out2) \<Rightarrow> Inr (st2, out1 @ out2)))"

definition loop :: "state \<Rightarrow> 32 word \<Rightarrow> line list \<Rightarrow> error + state \<times> event list" where
  "loop st now ls =
     (let (st1, out1) = motion st now
      in case process_lines st1 ls of
           Inl e \<Rightarrow> Inl e
         | Inr (st2, out2) \<Rightarrow> Inr (st2, out1 @ out2))"

text \<open>
  Iterations of \<open>loop()\<close> with nothing waiting on \<open>Serial1\<close>, one per clock value.
\<close>

fun ticks :: "state \<Rightarrow> 32 word list \<Rightarrow> state \<times> event list" where
  "ticks st [] = (st, [])"
| "ticks st (now # nows) =
     (let (st1, out1) = motion st now;
          (st2, out2) = ticks st1 nows
      in (st2, out1 @ out2))"

section \<open>Notions used by the properties\<close>

definition remainingX :: "state \<Rightarrow> int" where
  "remainingX st = targetStepsX st - currentStepsX st"

definition remainingY :: "state \<Rightarrow> int" where
  "remainingY st = targetStepsY st - currentStepsY st"

text \<open>The transformed motor deltas \<open>stepMotors\<close> computes from a state.\<close>

definition stepsA :: "state \<Rightarrow> int" where
  "stepsA st = remainingX st + remainingY st"

definition stepsB :: "state \<Rightarrow> int" where
  "stepsB st = remainingX st - remainingY st"

text \<open>The number of step pulses on a pin: its rising edges.\<close>

definition pulses :: "nat \<Rightarrow> event list \<Rightarrow> nat" where
  "pulses pin out = count_list out (DigitalWrite pin True)"

text \<open>The lines sent to the host, in order.\<close>

fun uart_lines :: "event list \<Rightarrow> message list" where
  "uart_lines [] = []"
| "uart_lines (Uart m # es) = m # uart_lines es"
| "uart_lines (e # es) = uart_lines es"

text \<open>The step delay is the one computed from the speed setting.\<close>

definition delay_ok :: "state \<Rightarrow> bool" where
  "delay_ok st = (delay_of_speed (currentSpeed st) = Some (stepDelay st))"

text \<open>The millimetre mirror is the step counters divided by \<open>STEPS_PER_MM\<close>.\<close>

definition mirror_ok :: "state \<Rightarrow> bool" where
  "mirror_ok st =
     (currentPosX st = real_of_int (currentStepsX st) / real_of_int STEPS_PER_MM \<and>
      currentPosY st = real_of_int (currentStepsY st) / real_of_int STEPS_PER_MM)"

text \<open>
  The states the firmware can be in at the start of a \<open>loop()\<close> iteration: the one
  \<open>setup()\<close> leaves, and the one any returning iteration leaves.
\<close>

inductive reachable :: "state \<Rightarrow> bool" where
  boot: "reachable (fst setup_boot)"
| iteration: "reachable st \<Longrightarrow> loop st now ls = Inr (st', out) \<Longrightarrow> reachable st'"

text \<open>Concrete inputs: limit switches and received commands.\<close>

definition switch_open :: "nat \<Rightarrow> bool" where
  "switch_open k = True"

definition switch_after :: "nat \<Rightarrow> nat \<Rightarrow> bool" where
  "switch_after n k = (k < n)"

definition cmd_home :: jobject where
  "cmd_home = map_of [(''cmd'', JStr ''home'')]"

definition cmd_stop :: jobject where
  "cmd_stop = map_of [(''cmd'', JStr ''stop'')]"

definition cmd_move_10_0 :: jobject where
  "cmd_move_10_0 = map_of [(''cmd'', JStr ''move_absolute''), (''x'', JInt 10), (''y'', JInt 0)]"

text \<open>
  A state with remaining distance \<open>(5, -5)\<close>: only motor B has a nonzero delta.
\<close>

definition st_diag :: state where
  "st_diag =
     initial_state\<lparr>isHomed := True, isMoving := True, targetStepsX := 5, currentStepsY := 5\<rparr>"

text \<open>Two states that differ at most in the magnet states.\<close>

definition motion_unchanged :: "state \<Rightarrow> state \<Rightarrow> bool" where
  "motion_unchanged st st' = (st' = st\<lparr>magnetStates := magnetStates st'\<rparr>)"

text \<open>
  The state of the scenario of C1: homed at \<open>(0, 0)\<close>, moving to \<open>(800, 0)\<close> at the
  default speed.
\<close>

definition scenario_moving :: state where
  "scenario_moving = initial_state\<lparr>isHomed := True, isMoving := True, targetStepsX := 800\<rparr>"

text \<open>The state and the output of a call that returned.\<close>

definition result_state :: "error + state \<times> event list \<Rightarrow> state option" where
  "result_state r = (case r of Inl e \<Rightarrow> None | Inr (st, out) \<Rightarrow> Some st)"

definition result_output :: "error + state \<times> event list \<Rightarrow> event list option" where
  "result_output r = (case r of Inl e \<Rightarrow> None | Inr (st, out) \<Rightarrow> Some out)"

text \<open>The command kinds \<open>processUARTCommand\<close> routes.\<close>

definition known_kinds :: "string list" where
  "known_kinds =
     [''home'', ''move_absolute'', ''move_relative'', ''magnet_on'', ''magnet_off'',
      ''set_fan'', ''stop'', ''get_position'']"

text \<open>More concrete commands and states.\<close>

definition cmd_move_speed_1000 :: jobject where
  "cmd_move_speed_1000 =
     map_of [(''cmd'', JStr ''move_absolute''), (''x'', JInt 10), (''y'', JInt 0),
             (''speed'', JInt 1000)]"

definition cmd_move_speed_9000 :: jobject where
  "cmd_move_speed_9000 =
     map_of [(''cmd'', JStr ''move_absolute''), (''x'', JInt 10), (''y'', JInt 0),
             (''speed'', JInt 9000)]"

definition cmd_move_bare :: jobject where
  "cmd_move_bare = map_of [(''cmd'', JStr ''move_absolute'')]"

definition cmd_dance :: jobject where
  "cmd_dance = map_of [(''cmd'', JStr ''dance'')]"

text \<open>
  The scenario after the ticks at 500 and 1000 microseconds: under way at \<open>(2, 0)\<close>.
\<close>

definition st_underway :: state where
  "st_underway =
     scenario_moving\<lparr>currentStepsX := 2, currentPosX := 1 / 40, lastStepTime := 1000\<rparr>"

text \<open>Then stopped there: homed and idle at \<open>(2, 0)\<close>.\<close>

definition st_stopped :: state where
  "st_stopped = st_underway\<lparr>isMoving := False, targetStepsX := 2\<rparr>"

text \<open>And homed again from under way: at \<open>(0, 0)\<close>, all else as it was.\<close>

definition st_rehomed :: state where
  "st_rehomed = st_underway\<lparr>currentStepsX := 0, currentPosX := 0\<rparr>"

section \<open>Auxiliary facts\<close>

subsection \<open>The three cases of a step\<close>

lemmas pin_defs =
  MOTOR_A_STEP_PIN_def MOTOR_A_DIR_PIN_def MOTOR_A_EN_PIN_def
  MOTOR_B_STEP_PIN_def MOTOR_B_DIR_PIN_def MOTOR_B_EN_PIN_def
  MAGNET_1_PIN_def MAGNET_2_PIN_def MAGNET_3_PIN_def MAGNET_4_PIN_def

lemmas rem_defs = remainingX_def remainingY_def stepsA_def stepsB_def

lemma stepMotors_arrived:
  "remainingX st = 0 \<Longrightarrow> remainingY st = 0 \<Longrightarrow>
   stepMotors st now = (st\<lparr>isMoving := False\<rparr>,
      [Uart (Position (currentPosX st) (currentPosY st) (isHomed st)), Debug ''Movement complete''])"
  by (simp add: stepMotors_def rem_defs sendPositionUpdate_def)

lemma stepMotors_waiting:
  "remainingX st \<noteq> 0 \<or> remainingY st \<noteq> 0 \<Longrightarrow> \<not> stepDelay st \<le> now - lastStepTime st \<Longrightarrow>
   stepMotors st now = (st, [DigitalWrite MOTOR_A_DIR_PIN (stepsA st > 0), DigitalWrite MOTOR_B_DIR_PIN (stepsB st > 0)])"
  by (auto simp add: stepMotors_def rem_defs Let_def)

lemma stepMotors_stepping:
  "remainingX st \<noteq> 0 \<or> remainingY st \<noteq> 0 \<Longrightarrow> stepDelay st \<le> now - lastStepTime st \<Longrightarrow>
   stepMotors st now =
     (st\<lparr>currentStepsX := currentStepsX st + (if stepsA st = 0 then 0 else if stepsA st > 0 then 1 else - 1),
         currentStepsY := currentStepsY st +
            (if stepsB st = 0 then 0 else if stepsA st = 0 then (if stepsB st > 0 then - 1 else 1)
             else if remainingY st > 0 then 1 else - 1),
         currentPosX := real_of_int (currentStepsX st + (if stepsA st = 0 then 0 else if stepsA st > 0 then 1 else - 1)) / real_of_int STEPS_PER_MM,
         currentPosY := real_of_int (currentStepsY st +
            (if stepsB st = 0 then 0 else if stepsA st = 0 then (if stepsB st > 0 then - 1 else 1)
             else if remainingY st > 0 then 1 else - 1)) / real_of_int STEPS_PER_MM,
         lastStepTime := now\<rparr>,
      [DigitalWrite MOTOR_A_DIR_PIN (stepsA st > 0), DigitalWrite MOTOR_B_DIR_PIN (stepsB st > 0)]
      @ (if stepsA st = 0 then [] else pulse MOTOR_A_STEP_PIN)
      @ (if stepsB st = 0 then [] else pulse MOTOR_B_STEP_PIN))"
  by (auto simp add: stepMotors_def rem_defs Let_def)

lemma pulses_simps:
  "pulses p [] = 0"
  "pulses p (e # es) = (if e = DigitalWrite p True then 1 else 0) + pulses p es"
  "pulses p (xs @ ys) = pulses p xs + pulses p ys"
  by (simp_all add: pulses_def)

subsection \<open>Magnets and fans leave the motion state alone\<close>


declare setMagnets_from.simps [simp del]

lemma setMagnet_frame:
  "\<exists>ms. fst (setMagnet i on st) = st\<lparr>magnetStates := ms\<rparr>"
  by (auto simp: setMagnet_def intro: exI [of _ "magnetStates st"])

lemma setMagnets_from_frame:
  "\<exists>ms. fst (setMagnets_from i on st) = st\<lparr>magnetStates := ms\<rparr>"
proof (induction i on st rule: setMagnets_from.induct)
  case (1 i on st)
  show ?case
  proof (cases "i < 4")
    case False
    then show ?thesis
      by (auto simp: setMagnets_from.simps [of i] intro: exI [of _ "magnetStates st"])
  next
    case True
    obtain st1 out1 where s1: "setMagnet i on st = (st1, out1)" by (cases "setMagnet i on st")
    obtain ms1 where m1: "st1 = st\<lparr>magnetStates := ms1\<rparr>"
      using setMagnet_frame [of i on st] s1 by auto
    obtain ms2 where m2: "fst (setMagnets_from (i + 1) on st1) = st1\<lparr>magnetStates := ms2\<rparr>"
      using "1.IH" [OF True s1 [symmetric] refl] by auto
    show ?thesis
      using True s1 m1 m2
      by (auto simp: setMagnets_from.simps [of i] split: prod.splits)
  qed
qed

lemma setAllMagnets_frame:
  "\<exists>ms. fst (setAllMagnets on st) = st\<lparr>magnetStates := ms\<rparr>"
  by (simp add: setAllMagnets_def setMagnets_from_frame)

lemma setMagnet_uart: "uart_lines (snd (setMagnet i on st)) = []"
  by (simp add: setMagnet_def)

lemma uart_lines_append: "uart_lines (xs @ ys) = uart_lines xs @ uart_lines ys"
  by (induction xs rule: uart_lines.induct) simp_all

lemma setMagnets_from_uart: "uart_lines (snd (setMagnets_from i on st)) = []"
proof (induction i on st rule: setMagnets_from.induct)
  case (1 i on st)
  show ?case
  proof (cases "i < 4")
    case False
    then show ?thesis by (simp add: setMagnets_from.simps [of i])
  next
    case True
    obtain st1 out1 where s1: "setMagnet i on st = (st1, out1)" by (cases "setMagnet i on st")
    have u1: "uart_lines out1 = []" using setMagnet_uart [of i on st] s1 by simp
    have u2: "uart_lines (snd (setMagnets_from (i + 1) on st1)) = []"
      using "1.IH" [OF True s1 [symmetric] refl] .
    show ?thesis
      using True s1 u1 u2
      by (auto simp: setMagnets_from.simps [of i] uart_lines_append split: prod.splits)
  qed
qed

lemma setAllMagnets_uart: "uart_lines (snd (setAllMagnets on st)) = []"
  by (simp add: setAllMagnets_def setMagnets_from_uart)

lemma setFanSpeed_uart: "uart_lines (setFanSpeed i v) = []"
  by (simp add: setFanSpeed_def Let_def)

subsection \<open>The seek loop\<close>

lemma seek_found:
  "\<not> limitHigh n \<Longrightarrow> k \<le> n \<Longrightarrow>
   \<exists>m. seek limitHigh k = Some m \<and> k \<le> m \<and> m \<le> n \<and> \<not> limitHigh m \<and> (\<forall>j. k \<le> j \<and> j < m \<longrightarrow> limitHigh j)"
proof (induction "n - k" arbitrary: k)
  case 0
  then have "k = n" by simp
  with 0 show ?case by (subst seek.simps) auto
next
  case (Suc d)
  show ?case
  proof (cases "limitHigh k")
    case False
    then show ?thesis using Suc.prems by (subst seek.simps) auto
  next
    case True
    have "d = n - Suc k" "Suc k \<le> n" using Suc.hyps(2) by auto
    from Suc.hyps(1) [OF this(1) Suc.prems(1) this(2)]
    obtain m where m: "seek limitHigh (Suc k) = Some m" "Suc k \<le> m" "m \<le> n" "\<not> limitHigh m"
      "\<forall>j. Suc k \<le> j \<and> j < m \<longrightarrow> limitHigh j" by blast
    have "\<forall>j. k \<le> j \<and> j < m \<longrightarrow> limitHigh j"
    proof (intro allI impI)
      fix j assume "k \<le> j \<and> j < m"
      then show "limitHigh j" using m(5) True by (cases "j = k") auto
    qed
    with m True show ?thesis by (subst seek.simps) auto
  qed
qed

lemma seek_leaves_low:
  assumes "seek limitHigh k = Some m"
  shows "\<not> limitHigh m"
proof (rule seek.raw_induct [where P = "\<lambda>lh k m. \<not> lh m", OF _ assms])
  fix f lh j y
  assume "\<And>k b y. f k b = Some y \<Longrightarrow> \<not> k y"
    and "(if lh j then f lh (Suc j) else Some j) = Some y"
  then show "\<not> lh y" by (auto split: if_splits)
qed

lemma seek_never: "(\<And>k. limitHigh k) \<Longrightarrow> seek limitHigh k = None"
  using seek_leaves_low [of limitHigh k] by (cases "seek limitHigh k") auto

subsection \<open>The scenario state is reachable\<close>

lemma setMagnets_from_initial:
  "fst (setMagnets_from 0 False initial_state) = initial_state"
  by (simp add: setMagnets_from.simps setMagnet_def initial_state_def)

lemma setup_boot_state: "fst setup_boot = initial_state"
  using setMagnets_from_initial
  by (auto simp: setup_boot_def setAllMagnets_def split: prod.splits)

lemma reachable_initial: "reachable initial_state"
  using reachable.boot by (simp add: setup_boot_state)

lemma seek_switch_after: "seek (switch_after 0) 0 = Some 0"
  by (subst seek.simps) (simp add: switch_after_def)

lemma scenario_loop:
  "\<exists>out. loop initial_state 0 [(Some cmd_home, switch_after 0), (Some cmd_move_10_0, switch_open)]
     = Inr (scenario_moving, out)"
  by (simp add: loop_def motion_def initial_state_def processUARTCommand_def cmd_home_def
      cmd_move_10_0_def as_cstr_def homeGantry_def seek_switch_after homing_start_def
      homing_finish_def moveToAbsolute_def or_float_def constrain_def MAX_X_MM_def MAX_Y_MM_def
      STEPS_PER_MM_def trunc_def scenario_moving_def)

lemma reachable_scenario: "reachable scenario_moving"
proof -
  obtain out where
    "loop (fst setup_boot) 0 [(Some cmd_home, switch_after 0), (Some cmd_move_10_0, switch_open)]
       = Inr (scenario_moving, out)"
    using scenario_loop setup_boot_state by auto
  then show ?thesis by (rule reachable.iteration [OF reachable.boot])
qed

subsection \<open>What a command can do\<close>

lemma motion_unchanged_refl: "motion_unchanged st st"
  by (simp add: motion_unchanged_def)

lemma setMagnet_unchanged: "motion_unchanged st (fst (setMagnet i on st))"
  using setMagnet_frame [of i on st] by (auto simp: motion_unchanged_def)

lemma setAllMagnets_unchanged: "motion_unchanged st (fst (setAllMagnets on st))"
  using setAllMagnets_frame [of on st] by (auto simp: motion_unchanged_def)

lemma eight_way:
  assumes "x = a \<Longrightarrow> P" "x = b \<Longrightarrow> P" "x = c \<Longrightarrow> P" "x = d \<Longrightarrow> P"
    "x = e \<Longrightarrow> P" "x = f \<Longrightarrow> P" "x = g \<Longrightarrow> P" "x = h \<Longrightarrow> P"
    "x \<noteq> a \<Longrightarrow> x \<noteq> b \<Longrightarrow> x \<noteq> c \<Longrightarrow> x \<noteq> d \<Longrightarrow>
     x \<noteq> e \<Longrightarrow> x \<noteq> f \<Longrightarrow> x \<noteq> g \<Longrightarrow> x \<noteq> h \<Longrightarrow> P"
  shows P
  using assms by blast

lemma processUARTCommand_effect:
  assumes "processUARTCommand limitHigh parsed st = Inr (st', out)"
  shows "(\<exists>cmd. parsed = Some cmd \<and> as_cstr (cmd ''cmd'') = Some ''home'' \<and>
            homeGantry limitHigh st = Some (st', out))
       \<or> (\<exists>cmd st1. parsed = Some cmd \<and> as_cstr (cmd ''cmd'') = Some ''move_absolute'' \<and>
            (if cmd ''speed'' = None then Inr st
             else set_speed (as_float (cmd ''speed'')) st) = Inr st1 \<and>
            moveToAbsolute (or_float (cmd ''x'') 0) (or_float (cmd ''y'') 0) st1 = (st', out))
       \<or> (\<exists>cmd. parsed = Some cmd \<and> as_cstr (cmd ''cmd'') = Some ''move_relative'' \<and>
            moveRelative (or_float (cmd ''dx'') 0) (or_float (cmd ''dy'') 0) st = (st', out))
       \<or> (\<exists>cmd. parsed = Some cmd \<and> as_cstr (cmd ''cmd'') = Some ''stop'' \<and>
            st' = st\<lparr>isMoving := False, targetStepsX := currentStepsX st,
                      targetStepsY := currentStepsY st\<rparr> \<and>
            out = sendStatus ''stopped'' (Some ''Movement stopped''))
       \<or> (\<exists>cmd. parsed = Some cmd \<and> as_cstr (cmd ''cmd'') = Some ''get_position'' \<and>
            st' = st \<and> out = sendPositionUpdate st)
       \<or> (motion_unchanged st st' \<and> uart_lines out = [])"
proof (cases parsed)
  case None
  with assms show ?thesis
    by (auto simp: processUARTCommand_def motion_unchanged_refl)
next
  case (Some cmd)
  show ?thesis
  proof (cases "as_cstr (cmd ''cmd'')")
    case None
    with Some assms show ?thesis
      by (auto simp: processUARTCommand_def motion_unchanged_refl)
  next
    case (Some cmdType)
    note c = \<open>parsed = Some cmd\<close> Some
    consider (home) "cmdType = ''home''" | (abs) "cmdType = ''move_absolute''"
      | (rel) "cmdType = ''move_relative''" | (on) "cmdType = ''magnet_on''"
      | (off) "cmdType = ''magnet_off''" | (fan) "cmdType = ''set_fan''"
      | (stop) "cmdType = ''stop''" | (get) "cmdType = ''get_position''"
      | (other) "cmdType \<noteq> ''home''" "cmdType \<noteq> ''move_absolute''"
          "cmdType \<noteq> ''move_relative''" "cmdType \<noteq> ''magnet_on''"
          "cmdType \<noteq> ''magnet_off''" "cmdType \<noteq> ''set_fan''"
          "cmdType \<noteq> ''stop''" "cmdType \<noteq> ''get_position''"
      by (rule eight_way [where x = cmdType and a = "''home''" and b = "''move_absolute''"
            and c = "''move_relative''" and d = "''magnet_on''" and e = "''magnet_off''"
            and f = "''set_fan''" and g = "''stop''" and h = "''get_position''"])
    then show ?thesis
    proof cases
      case home
      with c assms show ?thesis
        by (auto simp: processUARTCommand_def split: option.splits)
    next
      case abs
      with c assms show ?thesis
        by (auto simp: processUARTCommand_def Let_def split: sum.splits if_splits)
    next
      case rel
      with c assms show ?thesis
        by (auto simp: processUARTCommand_def Let_def)
    next
      case on
      with c assms setMagnet_unchanged [of st "as_int (cmd ''magnet'') - 1" True]
        setAllMagnets_unchanged [of st True]
        setMagnet_uart [of "as_int (cmd ''magnet'') - 1" True st] setAllMagnets_uart [of True st]
      show ?thesis
        by (auto simp: processUARTCommand_def split: if_splits)
    next
      case off
      with c assms setMagnet_unchanged [of st "as_int (cmd ''magnet'') - 1" False]
        setAllMagnets_unchanged [of st False]
        setMagnet_uart [of "as_int (cmd ''magnet'') - 1" False st] setAllMagnets_uart [of False st]
      show ?thesis
        by (auto simp: processUARTCommand_def split: if_splits)
    next
      case fan
      with c assms show ?thesis
        by (auto simp: processUARTCommand_def Let_def motion_unchanged_refl setFanSpeed_uart)
    next
      case stop
      with c assms show ?thesis
        by (auto simp: processUARTCommand_def)
    next
      case get
      with c assms show ?thesis
        by (auto simp: processUARTCommand_def)
    next
      case other
      with c assms show ?thesis
        by (auto simp: processUARTCommand_def motion_unchanged_refl)
    qed
  qed
qed

subsection \<open>Effects of the operations\<close>

lemma stepMotors_cases:
  obtains (arrived) "remainingX st = 0" "remainingY st = 0"
      "stepMotors st now = (st\<lparr>isMoving := False\<rparr>,
         [Uart (Position (currentPosX st) (currentPosY st) (isHomed st)), Debug ''Movement complete''])"
    | (waiting) "remainingX st \<noteq> 0 \<or> remainingY st \<noteq> 0" "\<not> stepDelay st \<le> now - lastStepTime st"
      "stepMotors st now = (st, [DigitalWrite MOTOR_A_DIR_PIN (stepsA st > 0), DigitalWrite MOTOR_B_DIR_PIN (stepsB st > 0)])"
    | (stepping) dx dy where "remainingX st \<noteq> 0 \<or> remainingY st \<noteq> 0" "stepDelay st \<le> now - lastStepTime st"
      "dx = (if stepsA st = 0 then 0 else if stepsA st > 0 then 1 else - 1)"
      "dy = (if stepsB st = 0 then 0 else if stepsA st = 0 then (if stepsB st > 0 then - 1 else 1)
             else if remainingY st > 0 then 1 else - 1)"
      "stepMotors st now =
        (st\<lparr>currentStepsX := currentStepsX st + dx,
            currentStepsY := currentStepsY st + dy,
            currentPosX := real_of_int (currentStepsX st + dx) / real_of_int STEPS_PER_MM,
            currentPosY := real_of_int (currentStepsY st + dy) / real_of_int STEPS_PER_MM,
            lastStepTime := now\<rparr>,
         [DigitalWrite MOTOR_A_DIR_PIN (stepsA st > 0), DigitalWrite MOTOR_B_DIR_PIN (stepsB st > 0)]
         @ (if stepsA st = 0 then [] else pulse MOTOR_A_STEP_PIN)
         @ (if stepsB st = 0 then [] else pulse MOTOR_B_STEP_PIN))"
proof (cases "remainingX st = 0 \<and> remainingY st = 0")
  case True
  then show ?thesis using arrived stepMotors_arrived [of st now] by blast
next
  case nz: False
  show ?thesis
  proof (cases "stepDelay st \<le> now - lastStepTime st")
    case True
    show ?thesis
      by (rule stepping [OF _ True refl refl]) (use nz stepMotors_stepping [of st now] True in auto)
  next
    case False
    then show ?thesis using waiting nz stepMotors_waiting [of st now] by blast
  qed
qed

lemma stepMotors_delay_ok: "delay_ok (fst (stepMotors st now)) = delay_ok st"
  by (rule stepMotors_cases [where st = st and now = now]) (simp_all add: delay_ok_def)

lemma stepMotors_mirror_ok: "mirror_ok st \<Longrightarrow> mirror_ok (fst (stepMotors st now))"
  by (rule stepMotors_cases [where st = st and now = now]) (simp_all add: mirror_ok_def)

lemma stepMotors_speed: "currentSpeed (fst (stepMotors st now)) = currentSpeed st"
  by (rule stepMotors_cases [where st = st and now = now]) simp_all

lemma homeGantry_result:
  assumes "homeGantry limitHigh st = Some (st', out)"
  shows "st' = st\<lparr>isHomed := False, currentStepsX := 0, currentStepsY := 0, currentPosX := 0,
                  currentPosY := 0, isHomed := True\<rparr>"
    and "uart_lines out = [Status ''homed'' (Some ''Gantry homed to (0, 0)'')]"
proof -
  from assms obtain n where n: "seek limitHigh 0 = Some n"
    by (auto simp: homeGantry_def homing_start_def split: option.splits)
  have rep: "uart_lines (concat (replicate k step_both)) = []" for k
    by (induction k) (simp_all add: step_both_def uart_lines_append)
  from assms n show "st' = st\<lparr>isHomed := False, currentStepsX := 0, currentStepsY := 0,
      currentPosX := 0, currentPosY := 0, isHomed := True\<rparr>"
    by (auto simp: homeGantry_def homing_start_def homing_finish_def)
  from assms n show "uart_lines out = [Status ''homed'' (Some ''Gantry homed to (0, 0)'')]"
    by (auto simp: homeGantry_def homing_start_def homing_finish_def back_off_def
        uart_lines_append rep sendStatus_def)
qed

lemma moveToAbsolute_fields:
  "currentStepsX (fst (moveToAbsolute x y st)) = currentStepsX st"
  "currentStepsY (fst (moveToAbsolute x y st)) = currentStepsY st"
  "currentPosX (fst (moveToAbsolute x y st)) = currentPosX st"
  "currentPosY (fst (moveToAbsolute x y st)) = currentPosY st"
  "currentSpeed (fst (moveToAbsolute x y st)) = currentSpeed st"
  "stepDelay (fst (moveToAbsolute x y st)) = stepDelay st"
  "isHomed (fst (moveToAbsolute x y st)) = isHomed st"
  "lastStepTime (fst (moveToAbsolute x y st)) = lastStepTime st"
  by (simp_all add: moveToAbsolute_def Let_def)

lemma moveToAbsolute_uart:
  "uart_lines (snd (moveToAbsolute x y st)) =
     (if isHomed st then [] else [Status ''error'' (Some ''Gantry not homed'')])"
  by (simp add: moveToAbsolute_def Let_def sendStatus_def)

lemma set_speed_result:
  assumes "set_speed v st = Inr st1"
  shows "\<exists>d. delay_of_speed v = Some d \<and> st1 = st\<lparr>currentSpeed := v, stepDelay := d\<rparr>"
  using assms by (auto simp: set_speed_def split: option.splits)

lemma processUARTCommand_delay_ok:
  assumes "processUARTCommand limitHigh parsed st = Inr (st', out)" and "delay_ok st"
  shows "delay_ok st'"
  using processUARTCommand_effect [OF assms(1)]
proof (elim disjE exE conjE)
  fix cmd assume "homeGantry limitHigh st = Some (st', out)"
  from homeGantry_result(1) [OF this] assms(2) show ?thesis by (simp add: delay_ok_def)
next
  fix cmd st1
  assume m: "moveToAbsolute (or_float (cmd ''x'') 0) (or_float (cmd ''y'') 0) st1 = (st', out)"
    and s: "(if cmd ''speed'' = None then Inr st
             else set_speed (as_float (cmd ''speed'')) st) = Inr st1"
  have "delay_ok st1" using s assms(2) by (auto simp: delay_ok_def split: if_splits dest!: set_speed_result)
  moreover have "st' = fst (moveToAbsolute (or_float (cmd ''x'') 0) (or_float (cmd ''y'') 0) st1)"
    using m by simp
  ultimately show ?thesis by (simp add: delay_ok_def moveToAbsolute_fields)
next
  fix cmd
  assume "moveRelative (or_float (cmd ''dx'') 0) (or_float (cmd ''dy'') 0) st = (st', out)"
  then have "st' = fst (moveToAbsolute (currentPosX st + or_float (cmd ''dx'') 0)
      (currentPosY st + or_float (cmd ''dy'') 0) st)"
    by (simp add: moveRelative_def)
  with assms(2) show ?thesis by (simp add: delay_ok_def moveToAbsolute_fields)
next
  fix cmd
  assume "st' = st\<lparr>isMoving := False, targetStepsX := currentStepsX st,
                     targetStepsY := currentStepsY st\<rparr>"
  with assms(2) show ?thesis by (simp add: delay_ok_def)
next
  fix cmd assume "st' = st"
  with assms(2) show ?thesis by simp
next
  assume "motion_unchanged st st'"
  then have "currentSpeed st' = currentSpeed st" "stepDelay st' = stepDelay st"
    by (metis motion_unchanged_def state.select_convs state.surjective state.update_convs)+
  with assms(2) show ?thesis by (simp add: delay_ok_def)
qed

subsection \<open>Invariants of the main loop\<close>

lemma motion_unchanged_fields:
  assumes "motion_unchanged st st'"
  shows "currentStepsX st' = currentStepsX st" "currentStepsY st' = currentStepsY st"
    "currentPosX st' = currentPosX st" "currentPosY st' = currentPosY st"
    "targetStepsX st' = targetStepsX st" "targetStepsY st' = targetStepsY st"
    "isMoving st' = isMoving st" "isHomed st' = isHomed st"
    "currentSpeed st' = currentSpeed st" "stepDelay st' = stepDelay st"
    "lastStepTime st' = lastStepTime st"
  by (metis assms motion_unchanged_def state.select_convs state.surjective state.update_convs)+

lemma processUARTCommand_mirror_ok:
  assumes "processUARTCommand limitHigh parsed st = Inr (st', out)" and "mirror_ok st"
  shows "mirror_ok st'"
  using processUARTCommand_effect [OF assms(1)]
proof (elim disjE exE conjE)
  fix cmd assume "homeGantry limitHigh st = Some (st', out)"
  from homeGantry_result(1) [OF this] show ?thesis by (simp add: mirror_ok_def)
next
  fix cmd st1
  assume m: "moveToAbsolute (or_float (cmd ''x'') 0) (or_float (cmd ''y'') 0) st1 = (st', out)"
    and s: "(if cmd ''speed'' = None then Inr st
             else set_speed (as_float (cmd ''speed'')) st) = Inr st1"
  have "mirror_ok st1"
    using s assms(2) by (auto simp: mirror_ok_def split: if_splits dest!: set_speed_result)
  moreover have "st' = fst (moveToAbsolute (or_float (cmd ''x'') 0) (or_float (cmd ''y'') 0) st1)"
    using m by simp
  ultimately show ?thesis by (simp add: mirror_ok_def moveToAbsolute_fields)
next
  fix cmd
  assume "moveRelative (or_float (cmd ''dx'') 0) (or_float (cmd ''dy'') 0) st = (st', out)"
  then have "st' = fst (moveToAbsolute (currentPosX st + or_float (cmd ''dx'') 0)
      (currentPosY st + or_float (cmd ''dy'') 0) st)"
    by (simp add: moveRelative_def)
  with assms(2) show ?thesis by (simp add: mirror_ok_def moveToAbsolute_fields)
next
  fix cmd
  assume "st' = st\<lparr>isMoving := False, targetStepsX := currentStepsX st,
                     targetStepsY := currentStepsY st\<rparr>"
  with assms(2) show ?thesis by (simp add: mirror_ok_def)
next
  fix cmd assume "st' = st"
  with assms(2) show ?thesis by simp
next
  assume "motion_unchanged st st'"
  from motion_unchanged_fields [OF this] assms(2) show ?thesis by (simp add: mirror_ok_def)
qed

lemma process_lines_invariant:
  assumes cmd: "\<And>limitHigh parsed st st' out.
      processUARTCommand limitHigh parsed st = Inr (st', out) \<Longrightarrow> I st \<Longrightarrow> I st'"
  shows "process_lines st ls = Inr (st', out) \<Longrightarrow> I st \<Longrightarrow> I st'"
proof (induction ls arbitrary: st out)
  case Nil
  then show ?case by simp
next
  case (Cons l ls)
  obtain parsed limitHigh where l: "l = (parsed, limitHigh)" by (cases l)
  from Cons.prems(1) obtain st1 out1 out2 where
    p: "processUARTCommand limitHigh parsed st = Inr (st1, out1)"
    and r: "process_lines st1 ls = Inr (st', out2)"
    by (auto simp: l split: sum.splits prod.splits)
  from cmd [OF p Cons.prems(2)] have "I st1" .
  from Cons.IH [OF r this] show ?case .
qed

lemma loop_invariant:
  assumes step: "\<And>st now. I st \<Longrightarrow> I (fst (stepMotors st now))"
    and cmd: "\<And>limitHigh parsed st st' out.
      processUARTCommand limitHigh parsed st = Inr (st', out) \<Longrightarrow> I st \<Longrightarrow> I st'"
    and run: "loop st now ls = Inr (st', out)" and inv: "I st"
  shows "I st'"
proof -
  have m: "I (fst (motion st now))" using step [OF inv] inv by (simp add: motion_def)
  from run obtain out2 where "process_lines (fst (motion st now)) ls = Inr (st', out2)"
    by (auto simp: loop_def split: sum.splits prod.splits)
  from process_lines_invariant [of I, OF cmd this m] show ?thesis .
qed

lemma reachable_invariant:
  assumes init: "I initial_state"
    and step: "\<And>st now. I st \<Longrightarrow> I (fst (stepMotors st now))"
    and cmd: "\<And>limitHigh parsed st st' out.
      processUARTCommand limitHigh parsed st = Inr (st', out) \<Longrightarrow> I st \<Longrightarrow> I st'"
  shows "reachable st \<Longrightarrow> I st"
proof (induction rule: reachable.induct)
  case boot
  then show ?case using init by (simp add: setup_boot_state)
next
  case (iteration st now ls st' out)
  from loop_invariant [of I, OF step cmd iteration.hyps(2) iteration.IH] show ?case .
qed

lemma delay_of_default: "delay_of_speed 2000 = Some 500"
  by (simp add: delay_of_speed_def ulong_of_float_def trunc_def)

lemma delay_ok_initial: "delay_ok initial_state"
  by (simp add: delay_ok_def initial_state_def DEFAULT_SPEED_def delay_of_default)

lemma mirror_ok_initial: "mirror_ok initial_state"
  by (simp add: mirror_ok_def initial_state_def)

lemma reachable_delay_ok: "reachable st \<Longrightarrow> delay_ok st"
  by (rule reachable_invariant [of delay_ok])
    (simp_all add: delay_ok_initial stepMotors_delay_ok processUARTCommand_delay_ok)

lemma reachable_mirror_ok: "reachable st \<Longrightarrow> mirror_ok st"
  by (rule reachable_invariant [of mirror_ok])
    (simp_all add: mirror_ok_initial stepMotors_mirror_ok processUARTCommand_mirror_ok)

subsection \<open>Pulses of a tick\<close>

lemma uart_mem: "Uart m \<in> set out \<longleftrightarrow> m \<in> set (uart_lines out)"
  by (induction out rule: uart_lines.induct) auto

lemma stepMotors_pulses:
  "pulses MOTOR_A_STEP_PIN (snd (stepMotors st now)) =
     (if (remainingX st \<noteq> 0 \<or> remainingY st \<noteq> 0) \<and> stepDelay st \<le> now - lastStepTime st
         \<and> stepsA st \<noteq> 0 then 1 else 0)"
  "pulses MOTOR_B_STEP_PIN (snd (stepMotors st now)) =
     (if (remainingX st \<noteq> 0 \<or> remainingY st \<noteq> 0) \<and> stepDelay st \<le> now - lastStepTime st
         \<and> stepsB st \<noteq> 0 then 1 else 0)"
  by (rule stepMotors_cases [where st = st and now = now];
      simp add: pulses_simps pulse_def pin_defs)+

lemma stepMotors_waiting_position:
  assumes "\<not> stepDelay st \<le> now - lastStepTime st"
  shows "currentStepsX (fst (stepMotors st now)) = currentStepsX st"
    "currentStepsY (fst (stepMotors st now)) = currentStepsY st"
    "currentPosX (fst (stepMotors st now)) = currentPosX st"
    "currentPosY (fst (stepMotors st now)) = currentPosY st"
    "lastStepTime (fst (stepMotors st now)) = lastStepTime st"
  using assms by (rule_tac [!] stepMotors_cases [where st = st and now = now]) simp_all

subsection \<open>Position reports\<close>

lemma stepMotors_reports:
  assumes "Uart (Position x y h) \<in> set (snd (stepMotors st now))"
  shows "x = currentPosX st \<and> y = currentPosY st"
  using assms
  by (rule_tac stepMotors_cases [where st = st and now = now])
    (auto simp: pulse_def split: if_splits)

lemma processUARTCommand_reports:
  assumes "processUARTCommand limitHigh parsed st = Inr (st', out)"
    and "Uart (Position x y h) \<in> set out"
  shows "x = currentPosX st \<and> y = currentPosY st"
  using processUARTCommand_effect [OF assms(1)]
proof (elim disjE exE conjE)
  fix cmd assume "homeGantry limitHigh st = Some (st', out)"
  from homeGantry_result(2) [OF this] assms(2) show ?thesis by (simp add: uart_mem)
next
  fix cmd st1
  assume "moveToAbsolute (or_float (cmd ''x'') 0) (or_float (cmd ''y'') 0) st1 = (st', out)"
  then have "out = snd (moveToAbsolute (or_float (cmd ''x'') 0) (or_float (cmd ''y'') 0) st1)"
    by simp
  with assms(2) show ?thesis by (simp add: uart_mem moveToAbsolute_uart split: if_splits)
next
  fix cmd
  assume "moveRelative (or_float (cmd ''dx'') 0) (or_float (cmd ''dy'') 0) st = (st', out)"
  then have "out = snd (moveToAbsolute (currentPosX st + or_float (cmd ''dx'') 0)
      (currentPosY st + or_float (cmd ''dy'') 0) st)"
    by (simp add: moveRelative_def)
  with assms(2) show ?thesis by (simp add: uart_mem moveToAbsolute_uart split: if_splits)
next
  fix cmd assume "out = sendStatus ''stopped'' (Some ''Movement stopped'')"
  with assms(2) show ?thesis by (simp add: sendStatus_def)
next
  fix cmd assume "out = sendPositionUpdate st"
  with assms(2) show ?thesis by (simp add: sendPositionUpdate_def)
next
  assume "uart_lines out = []"
  with assms(2) show ?thesis by (simp add: uart_mem)
qed

subsection \<open>A move with distance left never arrives\<close>

lemma stepMotors_never_arrives:
  assumes "remainingX st \<noteq> 0 \<or> remainingY st \<noteq> 0"
  shows "remainingX (fst (stepMotors st now)) \<noteq> 0 \<or> remainingY (fst (stepMotors st now)) \<noteq> 0"
    and "isMoving (fst (stepMotors st now)) = isMoving st"
    and "uart_lines (snd (stepMotors st now)) = []"
proof -
  show "remainingX (fst (stepMotors st now)) \<noteq> 0 \<or> remainingY (fst (stepMotors st now)) \<noteq> 0"
  proof (rule stepMotors_cases [where st = st and now = now])
    fix dx dy
    assume "dx = (if stepsA st = 0 then 0 else if stepsA st > 0 then 1 else - 1)"
      "dy = (if stepsB st = 0 then 0 else if stepsA st = 0 then (if stepsB st > 0 then - 1 else 1)
             else if remainingY st > 0 then 1 else - 1)"
      and "stepMotors st now =
        (st\<lparr>currentStepsX := currentStepsX st + dx,
            currentStepsY := currentStepsY st + dy,
            currentPosX := real_of_int (currentStepsX st + dx) / real_of_int STEPS_PER_MM,
            currentPosY := real_of_int (currentStepsY st + dy) / real_of_int STEPS_PER_MM,
            lastStepTime := now\<rparr>,
         [DigitalWrite MOTOR_A_DIR_PIN (stepsA st > 0), DigitalWrite MOTOR_B_DIR_PIN (stepsB st > 0)]
         @ (if stepsA st = 0 then [] else pulse MOTOR_A_STEP_PIN)
         @ (if stepsB st = 0 then [] else pulse MOTOR_B_STEP_PIN))"
    with assms show ?thesis
      by (simp add: rem_defs split: if_splits) presburger?
  qed (use assms in auto)
  show "isMoving (fst (stepMotors st now)) = isMoving st"
    using assms by (rule_tac stepMotors_cases [where st = st and now = now]) simp_all
  show "uart_lines (snd (stepMotors st now)) = []"
    using assms
    by (rule_tac stepMotors_cases [where st = st and now = now])
      (simp_all add: pulse_def uart_lines_append)
qed

lemma stepMotors_target:
  "targetStepsX (fst (stepMotors st now)) = targetStepsX st"
  "targetStepsY (fst (stepMotors st now)) = targetStepsY st"
  by (rule stepMotors_cases [where st = st and now = now]; simp)+

lemma ticks_never_arrive:
  assumes "isMoving st" and "remainingX st \<noteq> 0 \<or> remainingY st \<noteq> 0"
  shows "isMoving (fst (ticks st nows)) \<and>
         (remainingX (fst (ticks st nows)) \<noteq> 0 \<or> remainingY (fst (ticks st nows)) \<noteq> 0) \<and>
         targetStepsX (fst (ticks st nows)) = targetStepsX st \<and>
         targetStepsY (fst (ticks st nows)) = targetStepsY st \<and>
         uart_lines (snd (ticks st nows)) = []"
  using assms
proof (induction nows arbitrary: st)
  case Nil
  then show ?case by simp
next
  case (Cons now nows)
  let ?st1 = "fst (stepMotors st now)"
  have m: "motion st now = stepMotors st now" using Cons.prems(1) by (simp add: motion_def)
  note s = stepMotors_never_arrives [OF Cons.prems(2), of now]
  have mv: "isMoving ?st1" using s(2) Cons.prems(1) by simp
  note ih = Cons.IH [OF mv s(1)]
  have t: "ticks st (now # nows) =
      (fst (ticks ?st1 nows), snd (stepMotors st now) @ snd (ticks ?st1 nows))"
    by (simp add: m split: prod.splits)
  show ?case
    unfolding t using ih s(3) by (simp add: uart_lines_append stepMotors_target)
qed

subsection \<open>Idle ticks and homing pulses\<close>

lemma ticks_idle: "\<not> isMoving st \<Longrightarrow> ticks st nows = (st, [])"
  by (induction nows) (simp_all add: motion_def)

lemma loop_no_lines: "loop st now [] = Inr (motion st now)"
  by (simp add: loop_def split: prod.splits)

lemma pulses_step_both:
  "pulses MOTOR_A_STEP_PIN (concat (replicate k step_both)) = k"
  "pulses MOTOR_B_STEP_PIN (concat (replicate k step_both)) = k"
  by (induction k) (simp_all add: step_both_def pulses_simps pin_defs)

lemma pulses_back_off:
  "pulses MOTOR_A_STEP_PIN back_off = 100" "pulses MOTOR_B_STEP_PIN back_off = 100"
  by (simp_all add: back_off_def pulses_simps pin_defs pulses_step_both [unfolded pin_defs])

subsection \<open>A move while not homed\<close>

lemma delay_of_1000: "delay_of_speed 1000 = Some 1000"
  by (simp add: delay_of_speed_def ulong_of_float_def trunc_def)

lemma moveToAbsolute_unhomed:
  "\<not> isHomed st \<Longrightarrow>
   moveToAbsolute x y st =
     (st, [Debug ''ERROR: Cannot move - not homed'',
           Uart (Status ''error'' (Some ''Gantry not homed''))])"
  by (simp add: moveToAbsolute_def sendStatus_def)

subsection \<open>Two more reachable states\<close>

lemma scenario_two_ticks:
  "stepMotors scenario_moving 500 =
     (scenario_moving\<lparr>currentStepsX := 1, currentStepsY := - 1, currentPosX := 1 / 80,
                       currentPosY := - 1 / 80, lastStepTime := 500\<rparr>,
      [DigitalWrite MOTOR_A_DIR_PIN True, DigitalWrite MOTOR_B_DIR_PIN True]
      @ pulse MOTOR_A_STEP_PIN @ pulse MOTOR_B_STEP_PIN)"
  "stepMotors
     (scenario_moving\<lparr>currentStepsX := 1, currentStepsY := - 1, currentPosX := 1 / 80,
                       currentPosY := - 1 / 80, lastStepTime := 500\<rparr>) 1000 =
     (st_underway,
      [DigitalWrite MOTOR_A_DIR_PIN True, DigitalWrite MOTOR_B_DIR_PIN True]
      @ pulse MOTOR_A_STEP_PIN @ pulse MOTOR_B_STEP_PIN)"
  by (simp_all add: stepMotors_def Let_def st_underway_def scenario_moving_def initial_state_def
      DEFAULT_SPEED_def STEPS_PER_MM_def)

lemma reachable_underway: "reachable st_underway"
proof -
  let ?st1 = "scenario_moving\<lparr>currentStepsX := 1, currentStepsY := - 1, currentPosX := 1 / 80,
                       currentPosY := - 1 / 80, lastStepTime := 500\<rparr>"
  have m: "isMoving scenario_moving" "isMoving ?st1" by (simp_all add: scenario_moving_def)
  have "loop scenario_moving 500 [] = Inr (stepMotors scenario_moving 500)"
    by (simp add: loop_no_lines motion_def m)
  then have "reachable ?st1"
    using reachable.iteration [OF reachable_scenario] scenario_two_ticks(1) by simp
  moreover have "loop ?st1 1000 [] = Inr (stepMotors ?st1 1000)"
    by (simp add: loop_no_lines motion_def m)
  ultimately show ?thesis
    using reachable.iteration [of ?st1 1000 "[]"] scenario_two_ticks(2) by simp
qed

lemma st_underway_facts:
  "isMoving st_underway" "isHomed st_underway"
  "currentStepsX st_underway = 2" "currentStepsY st_underway = 0"
  "targetStepsX st_underway = 800" "targetStepsY st_underway = 0"
  "stepDelay st_underway = 500" "lastStepTime st_underway = 1000"
  "currentSpeed st_underway = 2000"
  by (simp_all add: st_underway_def scenario_moving_def initial_state_def DEFAULT_SPEED_def)

lemma home_underway:
  "result_state (processUARTCommand (switch_after 0) (Some cmd_home) st_underway) =
     Some st_rehomed"
  by (simp add: processUARTCommand_def cmd_home_def as_cstr_def homeGantry_def
      seek_switch_after homing_start_def homing_finish_def result_state_def
      st_rehomed_def st_underway_def scenario_moving_def initial_state_def)

lemma stop_underway:
  "processUARTCommand switch_open (Some cmd_stop) st_underway =
     Inr (st_stopped, sendStatus ''stopped'' (Some ''Movement stopped''))"
  by (simp add: processUARTCommand_def cmd_stop_def as_cstr_def st_stopped_def
      st_underway_def scenario_moving_def initial_state_def)

lemma reachable_stopped: "reachable st_stopped"
proof -
  have "motion st_underway 1000 =
      (st_underway, [DigitalWrite MOTOR_A_DIR_PIN True, DigitalWrite MOTOR_B_DIR_PIN True])"
    by (simp add: motion_def stepMotors_def Let_def st_underway_def scenario_moving_def
        initial_state_def DEFAULT_SPEED_def)
  then have "loop st_underway 1000 [(Some cmd_stop, switch_open)] =
      Inr (st_stopped, [DigitalWrite MOTOR_A_DIR_PIN True, DigitalWrite MOTOR_B_DIR_PIN True]
             @ sendStatus ''stopped'' (Some ''Movement stopped''))"
    by (simp add: loop_def stop_underway)
  then show ?thesis by (rule reachable.iteration [OF reachable_underway])
qed

lemma st_stopped_facts:
  "\<not> isMoving st_stopped" "isHomed st_stopped"
  "currentStepsX st_stopped = 2" "currentStepsY st_stopped = 0"
  "targetStepsX st_stopped = 2" "targetStepsY st_stopped = 0"
  by (simp_all add: st_stopped_def st_underway_def scenario_moving_def initial_state_def)

subsection \<open>Who writes the speed setting\<close>

lemma delay_of_9000: "delay_of_speed 9000 = Some 111"
  by (simp add: delay_of_speed_def ulong_of_float_def trunc_def)

lemma processUARTCommand_speed:
  assumes "processUARTCommand limitHigh parsed st = Inr (st', out)"
    and "currentSpeed st' \<noteq> currentSpeed st"
  shows "\<exists>cmd. parsed = Some cmd \<and> as_cstr (cmd ''cmd'') = Some ''move_absolute'' \<and>
           cmd ''speed'' \<noteq> None"
  using processUARTCommand_effect [OF assms(1)]
proof (elim disjE exE conjE)
  fix cmd assume "homeGantry limitHigh st = Some (st', out)"
  from homeGantry_result(1) [OF this] assms(2) show ?thesis by simp
next
  fix cmd st1
  assume c: "parsed = Some cmd" "as_cstr (cmd ''cmd'') = Some ''move_absolute''"
    and m: "moveToAbsolute (or_float (cmd ''x'') 0) (or_float (cmd ''y'') 0) st1 = (st', out)"
    and s: "(if cmd ''speed'' = None then Inr st
             else set_speed (as_float (cmd ''speed'')) st) = Inr st1"
  have "st' = fst (moveToAbsolute (or_float (cmd ''x'') 0) (or_float (cmd ''y'') 0) st1)"
    using m by simp
  then have "currentSpeed st' = currentSpeed st1" by (simp add: moveToAbsolute_fields)
  with assms(2) s have "cmd ''speed'' \<noteq> None" by (auto split: if_splits)
  with c show ?thesis by blast
next
  fix cmd
  assume "moveRelative (or_float (cmd ''dx'') 0) (or_float (cmd ''dy'') 0) st = (st', out)"
  then have "st' = fst (moveToAbsolute (currentPosX st + or_float (cmd ''dx'') 0)
      (currentPosY st + or_float (cmd ''dy'') 0) st)"
    by (simp add: moveRelative_def)
  with assms(2) show ?thesis by (simp add: moveToAbsolute_fields)
next
  fix cmd
  assume "st' = st\<lparr>isMoving := False, targetStepsX := currentStepsX st,
                     targetStepsY := currentStepsY st\<rparr>"
  with assms(2) show ?thesis by simp
next
  fix cmd assume "st' = st"
  with assms(2) show ?thesis by simp
next
  assume "motion_unchanged st st'"
  from motion_unchanged_fields(9) [OF this] assms(2) show ?thesis by simp
qed

section \<open>Properties\<close>

subsection \<open>C1: the move to (800, 0)\<close>

text \<open>
  C1 says that the move from \<open>(0, 0)\<close> to \<open>(800, 0)\<close> at 2000 steps per second
  completes: the position becomes \<open>(800, 0)\<close>, the state becomes idle and one position
  report is sent. The firmware does not do this. The state of the scenario is the one
  reached from \<open>setup()\<close> by a home command and a move_absolute command to 10 mm; from
  it, whatever the clock values of the ticks, the gantry is still moving after them, its
  position is not \<open>(800, 0)\<close>, and nothing has been sent to the host. (When both motors
  step and \<open>remainingY\<close> is 0, \<open>stepMotors\<close> decrements the Y counter, so the last
  step of a move always leaves a remainder.)
\<close>

theorem move_800_never_completes:
  "reachable scenario_moving \<and> isHomed scenario_moving \<and> isMoving scenario_moving \<and>
   currentStepsX scenario_moving = 0 \<and> currentStepsY scenario_moving = 0 \<and>
   targetStepsX scenario_moving = 800 \<and> targetStepsY scenario_moving = 0 \<and>
   currentSpeed scenario_moving = 2000 \<and> stepDelay scenario_moving = 500 \<and>
   (\<forall>nows. isMoving (fst (ticks scenario_moving nows)) \<and>
      (currentStepsX (fst (ticks scenario_moving nows)),
       currentStepsY (fst (ticks scenario_moving nows))) \<noteq> (800, 0) \<and>
      uart_lines (snd (ticks scenario_moving nows)) = [])"
proof -
  have f: "isHomed scenario_moving" "isMoving scenario_moving"
    "currentStepsX scenario_moving = 0" "currentStepsY scenario_moving = 0"
    "targetStepsX scenario_moving = 800" "targetStepsY scenario_moving = 0"
    "currentSpeed scenario_moving = 2000" "stepDelay scenario_moving = 500"
    by (simp_all add: scenario_moving_def initial_state_def DEFAULT_SPEED_def)
  have r: "remainingX scenario_moving \<noteq> 0 \<or> remainingY scenario_moving \<noteq> 0"
    by (simp add: rem_defs f)
  have "isMoving (fst (ticks scenario_moving nows)) \<and>
      (currentStepsX (fst (ticks scenario_moving nows)),
       currentStepsY (fst (ticks scenario_moving nows))) \<noteq> (800, 0) \<and>
      uart_lines (snd (ticks scenario_moving nows)) = []" for nows
    using ticks_never_arrive [OF f(2) r, of nows] by (auto simp: rem_defs f)
  with f reachable_scenario show ?thesis by blast
qed

theorem move_800_never_completes_witness:
  "isMoving (fst (ticks scenario_moving [500, 1000, 1500])) \<and>
   uart_lines (snd (ticks scenario_moving [500, 1000, 1500])) = []"
  using move_800_never_completes by blast

subsection \<open>C2: the pulse gate of a tick\<close>

text \<open>
  C2. In every state the firmware can reach, a scheduler tick while moving pulses each
  motor at most once. The step delay it compares against is the one computed from the
  speed setting, \<open>1000000 / currentSpeed\<close> microseconds. A pulse is emitted only if
  \<open>now - lastStepTime \<ge> stepDelay\<close>; when the deadline has not elapsed the tick emits
  no pulse and changes neither the step counters, nor the millimetre position, nor
  \<open>lastStepTime\<close>.
\<close>

theorem tick_pulse_gate:
  assumes "reachable st" and "isMoving st"
  shows "pulses MOTOR_A_STEP_PIN (snd (motion st now)) \<le> 1 \<and>
         pulses MOTOR_B_STEP_PIN (snd (motion st now)) \<le> 1 \<and>
         delay_of_speed (currentSpeed st) = Some (stepDelay st) \<and>
         (0 < pulses MOTOR_A_STEP_PIN (snd (motion st now)) +
              pulses MOTOR_B_STEP_PIN (snd (motion st now)) \<longrightarrow>
            stepDelay st \<le> now - lastStepTime st) \<and>
         (now - lastStepTime st < stepDelay st \<longrightarrow>
            pulses MOTOR_A_STEP_PIN (snd (motion st now)) = 0 \<and>
            pulses MOTOR_B_STEP_PIN (snd (motion st now)) = 0 \<and>
            currentStepsX (fst (motion st now)) = currentStepsX st \<and>
            currentStepsY (fst (motion st now)) = currentStepsY st \<and>
            currentPosX (fst (motion st now)) = currentPosX st \<and>
            currentPosY (fst (motion st now)) = currentPosY st \<and>
            lastStepTime (fst (motion st now)) = lastStepTime st)"
proof -
  have m: "motion st now = stepMotors st now" using assms(2) by (simp add: motion_def)
  have d: "delay_of_speed (currentSpeed st) = Some (stepDelay st)"
    using reachable_delay_ok [OF assms(1)] by (simp add: delay_ok_def)
  show ?thesis
    unfolding m using d
    by (auto simp: stepMotors_pulses stepMotors_waiting_position)
qed

theorem tick_pulse_gate_witness:
  "reachable scenario_moving \<and> isMoving scenario_moving \<and>
   delay_of_speed (currentSpeed scenario_moving) = Some 500 \<and>
   pulses MOTOR_A_STEP_PIN (snd (motion scenario_moving 100)) = 0 \<and>
   pulses MOTOR_B_STEP_PIN (snd (motion scenario_moving 100)) = 0 \<and>
   currentStepsX (fst (motion scenario_moving 100)) = 0"
proof -
  have mv: "isMoving scenario_moving" by (simp add: scenario_moving_def)
  have g: "100 - lastStepTime scenario_moving < stepDelay scenario_moving"
    and sd: "stepDelay scenario_moving = 500" and x: "currentStepsX scenario_moving = 0"
    by (simp_all add: scenario_moving_def initial_state_def DEFAULT_SPEED_def)
  show ?thesis
    using tick_pulse_gate [OF reachable_scenario mv, of 100] reachable_scenario mv g sd x
    by simp
qed

subsection \<open>C3: ticks that pulse a single motor\<close>

text \<open>
  C3. On a pulse-emitting tick in which exactly one of the transformed deltas
  \<open>stepsA = remainingX + remainingY\<close> and \<open>stepsB = remainingX - remainingY\<close> is
  nonzero, only that motor is pulsed, once. When only motor B pulses, the Y counter
  changes by \<open>-1\<close> if \<open>stepsB > 0\<close> and by \<open>+1\<close> if \<open>stepsB < 0\<close>, and X is
  untouched; when only motor A pulses, the X counter moves by the sign of \<open>stepsA\<close>
  and Y is untouched. In both cases the remaining distance
  \<open>|remainingX| + |remainingY|\<close> decreases by exactly 1.
\<close>

theorem single_motor_tick:
  assumes gate: "stepDelay st \<le> now - lastStepTime st"
    and single: "(stepsA st = 0) \<noteq> (stepsB st = 0)"
  shows "(stepsA st = 0 \<longrightarrow>
            pulses MOTOR_A_STEP_PIN (snd (stepMotors st now)) = 0 \<and>
            pulses MOTOR_B_STEP_PIN (snd (stepMotors st now)) = 1 \<and>
            currentStepsX (fst (stepMotors st now)) = currentStepsX st \<and>
            currentStepsY (fst (stepMotors st now)) =
              currentStepsY st + (if stepsB st > 0 then - 1 else 1)) \<and>
         (stepsB st = 0 \<longrightarrow>
            pulses MOTOR_A_STEP_PIN (snd (stepMotors st now)) = 1 \<and>
            pulses MOTOR_B_STEP_PIN (snd (stepMotors st now)) = 0 \<and>
            currentStepsX (fst (stepMotors st now)) =
              currentStepsX st + (if stepsA st > 0 then 1 else - 1) \<and>
            currentStepsY (fst (stepMotors st now)) = currentStepsY st) \<and>
         \<bar>remainingX (fst (stepMotors st now))\<bar> + \<bar>remainingY (fst (stepMotors st now))\<bar> =
           \<bar>remainingX st\<bar> + \<bar>remainingY st\<bar> - 1"
proof -
  have nz: "remainingX st \<noteq> 0 \<or> remainingY st \<noteq> 0"
    using single by (auto simp: stepsA_def stepsB_def)
  note sm = stepMotors_stepping [OF nz gate]
  show ?thesis
  proof (cases "stepsA st = 0")
    case True
    then have b: "stepsB st \<noteq> 0" using single by simp
    from True b show ?thesis
      unfolding sm
      by (auto simp: pulses_simps pulse_def pin_defs rem_defs)
  next
    case False
    then have b: "stepsB st = 0" using single by simp
    from False b show ?thesis
      unfolding sm
      by (auto simp: pulses_simps pulse_def pin_defs rem_defs)
  qed
qed

theorem single_motor_tick_witness:
  "stepDelay st_diag \<le> 500 - lastStepTime st_diag \<and> stepsA st_diag = 0 \<and> stepsB st_diag = 10 \<and>
   pulses MOTOR_B_STEP_PIN (snd (stepMotors st_diag 500)) = 1 \<and>
   currentStepsY (fst (stepMotors st_diag 500)) = 4 \<and>
   \<bar>remainingX (fst (stepMotors st_diag 500))\<bar> + \<bar>remainingY (fst (stepMotors st_diag 500))\<bar> = 9"
proof -
  have g: "stepDelay st_diag \<le> 500 - lastStepTime st_diag"
    by (simp add: st_diag_def initial_state_def DEFAULT_SPEED_def)
  have a: "stepsA st_diag = 0" and b: "stepsB st_diag = 10"
    by (simp_all add: st_diag_def initial_state_def rem_defs)
  have s: "(stepsA st_diag = 0) \<noteq> (stepsB st_diag = 0)" using a b by simp
  have r: "\<bar>remainingX st_diag\<bar> + \<bar>remainingY st_diag\<bar> = 10"
    by (simp add: st_diag_def initial_state_def rem_defs)
  have y: "currentStepsY st_diag = 5" by (simp add: st_diag_def)
  show ?thesis
    using single_motor_tick [OF g s] g a b r y by simp
qed

subsection \<open>C4: move_absolute while not homed\<close>

text \<open>
  C4 says that a move_absolute command received while not homed changes no state, the
  speed setting included. The speed field is applied before the homed check: after
  \<open>setup()\<close>, the command \<open>{"cmd":"move_absolute","x":10,"y":0,"speed":1000}\<close> is
  answered by the error status and leaves the speed at 1000 and the step delay at 1000
  instead of 2000 and 500.
\<close>

theorem move_unhomed_changes_speed:
  "reachable initial_state \<and> \<not> isHomed initial_state \<and> currentSpeed initial_state = 2000 \<and>
   stepDelay initial_state = 500 \<and>
   result_state (processUARTCommand switch_open (Some cmd_move_speed_1000) initial_state) =
     Some (initial_state\<lparr>currentSpeed := 1000, stepDelay := 1000\<rparr>) \<and>
   result_output (processUARTCommand switch_open (Some cmd_move_speed_1000) initial_state) =
     Some [Debug ''ERROR: Cannot move - not homed'',
           Uart (Status ''error'' (Some ''Gantry not homed''))]"
  using reachable_initial
  by (simp add: processUARTCommand_def cmd_move_speed_1000_def as_cstr_def as_float_def
      or_float_def set_speed_def delay_of_1000 moveToAbsolute_def sendStatus_def
      result_state_def result_output_def initial_state_def DEFAULT_SPEED_def)

text \<open>
  C4, amended. A move_absolute command received while not homed is rejected: whenever
  its processing returns, exactly one error status has been sent, no pulse has been
  emitted, and the position (steps and millimetres), the target, the motion state and
  the homed flag are unchanged. When the command has no speed field the processing
  returns and no state changes at all. Processing never hangs.
\<close>

theorem move_unhomed_rejected:
  assumes "\<not> isHomed st" and "as_cstr (cmd ''cmd'') = Some ''move_absolute''"
  shows "(cmd ''speed'' = None \<longrightarrow>
            processUARTCommand limitHigh (Some cmd) st =
              Inr (st, [Debug ''ERROR: Cannot move - not homed'',
                        Uart (Status ''error'' (Some ''Gantry not homed''))])) \<and>
         processUARTCommand limitHigh (Some cmd) st \<noteq> Inl NoReturn \<and>
         (\<forall>st' out. processUARTCommand limitHigh (Some cmd) st = Inr (st', out) \<longrightarrow>
            uart_lines out = [Status ''error'' (Some ''Gantry not homed'')] \<and>
            pulses MOTOR_A_STEP_PIN out = 0 \<and> pulses MOTOR_B_STEP_PIN out = 0 \<and>
            currentStepsX st' = currentStepsX st \<and> currentStepsY st' = currentStepsY st \<and>
            currentPosX st' = currentPosX st \<and> currentPosY st' = currentPosY st \<and>
            targetStepsX st' = targetStepsX st \<and> targetStepsY st' = targetStepsY st \<and>
            isMoving st' = isMoving st \<and> isHomed st' = isHomed st \<and>
            magnetStates st' = magnetStates st \<and> lastStepTime st' = lastStepTime st)"
proof -
  have p: "processUARTCommand limitHigh (Some cmd) st =
      (case (if cmd ''speed'' \<noteq> None then set_speed (as_float (cmd ''speed'')) st else Inr st) of
         Inl e \<Rightarrow> Inl e
       | Inr st1 \<Rightarrow> Inr (moveToAbsolute (or_float (cmd ''x'') 0) (or_float (cmd ''y'') 0) st1))"
    using assms(2) by (simp add: processUARTCommand_def Let_def)
  have u: "isHomed st1 = isHomed st" if "set_speed v st = Inr st1" for v st1
    using set_speed_result [OF that] by auto
  show ?thesis
    unfolding p using assms(1)
    by (auto simp: moveToAbsolute_unhomed pulses_simps set_speed_def
        split: sum.splits option.splits if_splits)
qed

theorem move_unhomed_rejected_witness:
  "\<not> isHomed initial_state \<and> as_cstr (cmd_move_10_0 ''cmd'') = Some ''move_absolute'' \<and>
   cmd_move_10_0 ''speed'' = None \<and>
   processUARTCommand switch_open (Some cmd_move_10_0) initial_state =
     Inr (initial_state, [Debug ''ERROR: Cannot move - not homed'',
                          Uart (Status ''error'' (Some ''Gantry not homed''))])"
proof -
  have h: "\<not> isHomed initial_state" by (simp add: initial_state_def)
  have c: "as_cstr (cmd_move_10_0 ''cmd'') = Some ''move_absolute''"
    and s: "cmd_move_10_0 ''speed'' = None"
    by (simp_all add: cmd_move_10_0_def as_cstr_def)
  show ?thesis
    using move_unhomed_rejected [where st = initial_state and cmd = cmd_move_10_0
        and limitHigh = switch_open, OF h c] h c s
    by blast
qed

subsection \<open>C5: home while moving\<close>

text \<open>
  C5 says that a home command received while moving performs a stop first (target set
  to the current position, state idle), so that no motion toward the old target resumes
  after homing. \<open>homeGantry\<close> touches neither \<open>isMoving\<close> nor the target: two
  steps into the move to \<open>(800, 0)\<close>, at \<open>(2, 0)\<close>, a home command whose switch
  triggers at once leaves the gantry at \<open>(0, 0)\<close>, moving, with target \<open>(800, 0)\<close>,
  and the next tick whose deadline has elapsed pulses motor A.
\<close>

theorem home_while_moving_resumes:
  "reachable st_underway \<and> isMoving st_underway \<and>
   currentStepsX st_underway = 2 \<and> targetStepsX st_underway = 800 \<and>
   result_state (processUARTCommand (switch_after 0) (Some cmd_home) st_underway) =
     Some st_rehomed \<and>
   isMoving st_rehomed \<and> targetStepsX st_rehomed = 800 \<and> currentStepsX st_rehomed = 0 \<and>
   pulses MOTOR_A_STEP_PIN (snd (motion st_rehomed 1500)) = 1 \<and>
   currentStepsX (fst (motion st_rehomed 1500)) = 1"
proof -
  have s: "isMoving st_rehomed" "targetStepsX st_rehomed = 800"
    "currentStepsX st_rehomed = 0"
    "remainingX st_rehomed \<noteq> 0 \<or> remainingY st_rehomed \<noteq> 0"
    "stepDelay st_rehomed \<le> 1500 - lastStepTime st_rehomed"
    "stepsA st_rehomed = 800" "stepsB st_rehomed = 800"
    "remainingX st_rehomed = 800" "remainingY st_rehomed = 0"
    by (simp_all add: st_rehomed_def st_underway_def scenario_moving_def initial_state_def
        DEFAULT_SPEED_def rem_defs)
  have m: "motion st_rehomed 1500 = stepMotors st_rehomed 1500"
    using s(1) by (simp add: motion_def)
  have p: "pulses MOTOR_A_STEP_PIN (snd (motion st_rehomed 1500)) = 1"
    unfolding m by (simp add: stepMotors_pulses s(5-9))
  have x: "currentStepsX (fst (motion st_rehomed 1500)) = 1"
    unfolding m by (simp add: stepMotors_stepping [OF s(4,5)] s(3,6,7))
  show ?thesis using reachable_underway st_underway_facts home_underway s p x by simp
qed

text \<open>
  C5, amended. A home command performs no stop: when it returns, the motion state, the
  target, the speed setting and \<open>lastStepTime\<close> are what they were, the position is
  \<open>(0, 0)\<close> and the homed flag is set. So if the gantry was moving to a target other than
  \<open>(0, 0)\<close>, it is still moving to it, and the next tick whose deadline has elapsed
  pulses a motor.
\<close>

theorem home_keeps_target:
  assumes "as_cstr (cmd ''cmd'') = Some ''home''"
    and "processUARTCommand limitHigh (Some cmd) st = Inr (st', out)"
  shows "isMoving st' = isMoving st \<and>
         targetStepsX st' = targetStepsX st \<and> targetStepsY st' = targetStepsY st \<and>
         currentStepsX st' = 0 \<and> currentStepsY st' = 0 \<and>
         currentPosX st' = 0 \<and> currentPosY st' = 0 \<and> isHomed st' \<and>
         currentSpeed st' = currentSpeed st \<and> stepDelay st' = stepDelay st \<and>
         lastStepTime st' = lastStepTime st \<and>
         (isMoving st \<and> (targetStepsX st \<noteq> 0 \<or> targetStepsY st \<noteq> 0) \<and>
          stepDelay st \<le> now - lastStepTime st \<longrightarrow>
            0 < pulses MOTOR_A_STEP_PIN (snd (motion st' now)) +
                pulses MOTOR_B_STEP_PIN (snd (motion st' now)))"
proof -
  have "processUARTCommand limitHigh (Some cmd) st =
      (case homeGantry limitHigh st of None \<Rightarrow> Inl NoReturn | Some r \<Rightarrow> Inr r)"
    using assms(1) by (simp add: processUARTCommand_def)
  with assms(2) have h: "homeGantry limitHigh st = Some (st', out)"
    by (simp split: option.splits)
  note r = homeGantry_result(1) [OF h]
  have f: "isMoving st' = isMoving st" "targetStepsX st' = targetStepsX st"
    "targetStepsY st' = targetStepsY st" "currentStepsX st' = 0" "currentStepsY st' = 0"
    "currentPosX st' = 0" "currentPosY st' = 0" "isHomed st'"
    "currentSpeed st' = currentSpeed st" "stepDelay st' = stepDelay st"
    "lastStepTime st' = lastStepTime st"
    by (simp_all add: r)
  have g: "0 < pulses MOTOR_A_STEP_PIN (snd (motion st' now)) +
               pulses MOTOR_B_STEP_PIN (snd (motion st' now))"
    if "isMoving st" "targetStepsX st \<noteq> 0 \<or> targetStepsY st \<noteq> 0"
      "stepDelay st \<le> now - lastStepTime st"
  proof -
    have m: "motion st' now = stepMotors st' now" using that(1) f(1) by (simp add: motion_def)
    have rx: "remainingX st' = targetStepsX st" "remainingY st' = targetStepsY st"
      by (simp_all add: rem_defs f)
    have "stepsA st' \<noteq> 0 \<or> stepsB st' \<noteq> 0"
      using that(2) by (auto simp: stepsA_def stepsB_def rx)
    then show ?thesis
      unfolding m using that(2,3) by (auto simp: stepMotors_pulses rx f)
  qed
  show ?thesis using f g by (intro conjI impI) auto
qed

theorem home_keeps_target_witness:
  "as_cstr (cmd_home ''cmd'') = Some ''home'' \<and>
   processUARTCommand (switch_after 0) (Some cmd_home) st_underway =
     Inr (st_rehomed, snd (the (homeGantry (switch_after 0) st_underway))) \<and>
   isMoving st_rehomed = isMoving st_underway \<and>
   targetStepsX st_rehomed = targetStepsX st_underway \<and>
   0 < pulses MOTOR_A_STEP_PIN (snd (motion st_rehomed 1500)) +
       pulses MOTOR_B_STEP_PIN (snd (motion st_rehomed 1500))"
proof -
  have c: "as_cstr (cmd_home ''cmd'') = Some ''home''" by (simp add: cmd_home_def as_cstr_def)
  have p: "processUARTCommand (switch_after 0) (Some cmd_home) st_underway =
     Inr (st_rehomed, snd (the (homeGantry (switch_after 0) st_underway)))"
    by (simp add: processUARTCommand_def cmd_home_def as_cstr_def homeGantry_def
      seek_switch_after homing_start_def homing_finish_def
      st_rehomed_def st_underway_def scenario_moving_def initial_state_def)
  have g: "isMoving st_underway \<and>
      (targetStepsX st_underway \<noteq> 0 \<or> targetStepsY st_underway \<noteq> 0) \<and>
      stepDelay st_underway \<le> 1500 - lastStepTime st_underway"
    by (simp add: st_underway_facts)
  show ?thesis
    using home_keeps_target [where cmd = cmd_home and limitHigh = "switch_after 0"
        and st = st_underway and now = 1500, OF c p] c p g
    by simp
qed

subsection \<open>C6: stop\<close>

text \<open>
  C6. A stop command, in any state, sets the target to the current position and makes
  the state idle; it sends one "stopped" status and no pulse. Processing it again in
  the resulting state leaves that state as it is. After it, ticks emit nothing (hence no
  pulse) and change nothing, whatever their clock values.
\<close>

theorem stop_cancels_motion:
  assumes "as_cstr (cmd ''cmd'') = Some ''stop''"
  shows "\<exists>st' out.
           processUARTCommand limitHigh (Some cmd) st = Inr (st', out) \<and>
           targetStepsX st' = currentStepsX st \<and> targetStepsY st' = currentStepsY st \<and>
           currentStepsX st' = currentStepsX st \<and> currentStepsY st' = currentStepsY st \<and>
           \<not> isMoving st' \<and>
           uart_lines out = [Status ''stopped'' (Some ''Movement stopped'')] \<and>
           pulses MOTOR_A_STEP_PIN out = 0 \<and> pulses MOTOR_B_STEP_PIN out = 0 \<and>
           processUARTCommand limitHigh (Some cmd) st' = Inr (st', out) \<and>
           (\<forall>nows. ticks st' nows = (st', [])) \<and>
           (\<forall>now. loop st' now [] = Inr (st', []))"
proof -
  let ?st' = "st\<lparr>isMoving := False, targetStepsX := currentStepsX st,
                   targetStepsY := currentStepsY st\<rparr>"
  let ?out = "sendStatus ''stopped'' (Some ''Movement stopped'')"
  have p: "processUARTCommand limitHigh (Some cmd) s =
      Inr (s\<lparr>isMoving := False, targetStepsX := currentStepsX s,
              targetStepsY := currentStepsY s\<rparr>, ?out)" for s
    using assms by (simp add: processUARTCommand_def)
  have idle: "\<not> isMoving ?st'" by simp
  have again: "processUARTCommand limitHigh (Some cmd) ?st' = Inr (?st', ?out)"
    by (simp add: p)
  have t: "ticks ?st' nows = (?st', [])" for nows by (rule ticks_idle [OF idle])
  have l: "loop ?st' now [] = Inr (?st', [])" for now
    by (simp add: loop_no_lines motion_def)
  have u: "uart_lines ?out = [Status ''stopped'' (Some ''Movement stopped'')]"
    "pulses MOTOR_A_STEP_PIN ?out = 0" "pulses MOTOR_B_STEP_PIN ?out = 0"
    by (simp_all add: sendStatus_def pulses_simps)
  show ?thesis
    apply (rule exI [of _ ?st'])
    apply (rule exI [of _ ?out])
    using p [of st] again t l u by simp
qed

theorem stop_cancels_motion_witness:
  "as_cstr (cmd_stop ''cmd'') = Some ''stop'' \<and> isMoving scenario_moving \<and>
   (\<exists>st' out. processUARTCommand switch_open (Some cmd_stop) scenario_moving = Inr (st', out) \<and>
      targetStepsX st' = 0 \<and> \<not> isMoving st' \<and> ticks st' [500, 1000] = (st', []))"
proof -
  have c: "as_cstr (cmd_stop ''cmd'') = Some ''stop''" by (simp add: cmd_stop_def as_cstr_def)
  have s: "isMoving scenario_moving" "currentStepsX scenario_moving = 0"
    by (simp_all add: scenario_moving_def initial_state_def)
  from stop_cancels_motion [where cmd = cmd_stop and limitHigh = switch_open
      and st = scenario_moving, OF c] obtain st' out where
    "processUARTCommand switch_open (Some cmd_stop) scenario_moving = Inr (st', out)"
    "targetStepsX st' = currentStepsX scenario_moving" "\<not> isMoving st'"
    "\<forall>nows. ticks st' nows = (st', [])"
    by blast
  with c s show ?thesis by (auto simp del: ticks.simps)
qed

subsection \<open>C7: a homing run\<close>

text \<open>
  C7. If the limit switch reports triggered at some poll, a homing run returns, and it
  proceeds as follows: the homed flag is cleared first; both motors are pulsed once per
  poll that reads not triggered, up to the first poll \<open>m\<close> that reads triggered; then
  exactly 100 back-off pulses are made on both motors, with no look at the switch; then
  the position is set to \<open>(0, 0)\<close> in steps and millimetres, the homed flag is set, and
  exactly one "homed" status is sent.
\<close>

theorem homing_run:
  assumes "\<not> limitHigh n"
  shows "\<exists>m st' out.
           m \<le> n \<and> \<not> limitHigh m \<and> (\<forall>k<m. limitHigh k) \<and> seek limitHigh 0 = Some m \<and>
           \<not> isHomed (fst (homing_start st)) \<and>
           homeGantry limitHigh st = Some (st', out) \<and>
           out = snd (homing_start st) @ concat (replicate m step_both) @ back_off
                   @ snd (homing_finish (fst (homing_start st))) \<and>
           pulses MOTOR_A_STEP_PIN (snd (homing_start st)) = 0 \<and>
           pulses MOTOR_B_STEP_PIN (snd (homing_start st)) = 0 \<and>
           pulses MOTOR_A_STEP_PIN (concat (replicate m step_both)) = m \<and>
           pulses MOTOR_B_STEP_PIN (concat (replicate m step_both)) = m \<and>
           pulses MOTOR_A_STEP_PIN back_off = 100 \<and>
           pulses MOTOR_B_STEP_PIN back_off = 100 \<and>
           pulses MOTOR_A_STEP_PIN out = m + 100 \<and>
           pulses MOTOR_B_STEP_PIN out = m + 100 \<and>
           currentStepsX st' = 0 \<and> currentStepsY st' = 0 \<and>
           currentPosX st' = 0 \<and> currentPosY st' = 0 \<and> isHomed st' \<and>
           uart_lines out = [Status ''homed'' (Some ''Gantry homed to (0, 0)'')]"
proof -
  from seek_found [where limitHigh = limitHigh and n = n and k = 0] assms obtain m where
    m: "seek limitHigh 0 = Some m" "m \<le> n" "\<not> limitHigh m" "\<forall>k<m. limitHigh k"
    by auto
  let ?st1 = "fst (homing_start st)"
  let ?st' = "fst (homing_finish ?st1)"
  let ?out = "snd (homing_start st) @ concat (replicate m step_both) @ back_off
                @ snd (homing_finish ?st1)"
  have h: "homeGantry limitHigh st = Some (?st', ?out)"
    by (simp add: homeGantry_def m(1) split: prod.splits)
  have p0: "pulses MOTOR_A_STEP_PIN (snd (homing_start st)) = 0"
    "pulses MOTOR_B_STEP_PIN (snd (homing_start st)) = 0"
    "pulses MOTOR_A_STEP_PIN (snd (homing_finish ?st1)) = 0"
    "pulses MOTOR_B_STEP_PIN (snd (homing_finish ?st1)) = 0"
    by (simp_all add: homing_start_def homing_finish_def sendStatus_def pulses_simps pin_defs)
  have pt: "pulses MOTOR_A_STEP_PIN ?out = m + 100" "pulses MOTOR_B_STEP_PIN ?out = m + 100"
    by (simp_all add: pulses_simps(3) p0 pulses_step_both pulses_back_off)
  have f: "currentStepsX ?st' = 0" "currentStepsY ?st' = 0" "currentPosX ?st' = 0"
    "currentPosY ?st' = 0" "isHomed ?st'" "\<not> isHomed ?st1"
    by (simp_all add: homing_finish_def homing_start_def)
  note u = homeGantry_result(2) [OF h]
  show ?thesis
    apply (rule exI [of _ m])
    apply (rule exI [of _ ?st'])
    apply (rule exI [of _ ?out])
    using m h p0 pt f u pulses_step_both [of m] pulses_back_off by simp
qed

theorem homing_run_witness:
  "\<not> switch_after 3 3 \<and>
   (\<exists>st' out. seek (switch_after 3) 0 = Some 3 \<and>
      homeGantry (switch_after 3) scenario_moving = Some (st', out) \<and>
      pulses MOTOR_A_STEP_PIN out = 103 \<and> currentStepsX st' = 0 \<and> isHomed st' \<and>
      uart_lines out = [Status ''homed'' (Some ''Gantry homed to (0, 0)'')])"
proof -
  have n: "\<not> switch_after 3 3" by (simp add: switch_after_def)
  from homing_run [where limitHigh = "switch_after 3" and n = 3 and st = scenario_moving, OF n]
  obtain m st' out where
    r: "m \<le> 3" "\<not> switch_after 3 m" "seek (switch_after 3) 0 = Some m"
      "homeGantry (switch_after 3) scenario_moving = Some (st', out)"
      "pulses MOTOR_A_STEP_PIN out = m + 100" "currentStepsX st' = 0" "isHomed st'"
      "uart_lines out = [Status ''homed'' (Some ''Gantry homed to (0, 0)'')]"
    by blast
  from r(1,2) have "m = 3" by (simp add: switch_after_def)
  with r n show ?thesis by auto
qed

subsection \<open>C8: the speed setting\<close>

text \<open>
  C8 says that the speed setting changes only while idle and always lies in
  \<open>(0, MAX_SPEED]\<close>. The move_absolute handler assigns the speed field as received, in
  any motion state: while the scenario's move is in progress, the command
  \<open>{"cmd":"move_absolute","x":10,"y":0,"speed":9000}\<close> changes the speed from 2000 to
  9000, above \<open>MAX_SPEED = 8000\<close>.
\<close>

theorem speed_set_while_moving:
  "reachable scenario_moving \<and> isMoving scenario_moving \<and>
   currentSpeed scenario_moving = 2000 \<and>
   result_state (processUARTCommand switch_open (Some cmd_move_speed_9000) scenario_moving) =
     Some (scenario_moving\<lparr>currentSpeed := 9000, stepDelay := 111\<rparr>) \<and>
   real_of_int MAX_SPEED < currentSpeed (scenario_moving\<lparr>currentSpeed := 9000, stepDelay := 111\<rparr>)"
  using reachable_scenario
  by (simp add: processUARTCommand_def cmd_move_speed_9000_def as_cstr_def as_float_def
      or_float_def set_speed_def delay_of_9000 moveToAbsolute_def constrain_def
      MAX_X_MM_def MAX_Y_MM_def STEPS_PER_MM_def trunc_def MAX_SPEED_def
      result_state_def scenario_moving_def initial_state_def DEFAULT_SPEED_def)

text \<open>
  C8, amended. The speed setting starts at \<open>DEFAULT_SPEED\<close>, which lies in
  \<open>(0, MAX_SPEED]\<close>, and \<open>setup()\<close> leaves it there. Ticks and homing never change it,
  and a command changes it only if it is a move_absolute command that carries a speed
  field (in whatever motion state it is received).
\<close>

theorem speed_set_only_by_move_absolute:
  "currentSpeed initial_state = real_of_int DEFAULT_SPEED \<and>
   0 < currentSpeed initial_state \<and> currentSpeed initial_state \<le> real_of_int MAX_SPEED \<and>
   currentSpeed (fst setup_boot) = currentSpeed initial_state \<and>
   currentSpeed (fst (stepMotors st now)) = currentSpeed st \<and>
   currentSpeed (fst (motion st now)) = currentSpeed st \<and>
   (\<forall>st' out. homeGantry limitHigh st = Some (st', out) \<longrightarrow> currentSpeed st' = currentSpeed st) \<and>
   (\<forall>st' out. processUARTCommand limitHigh parsed st = Inr (st', out) \<and>
        currentSpeed st' \<noteq> currentSpeed st \<longrightarrow>
      (\<exists>cmd. parsed = Some cmd \<and> as_cstr (cmd ''cmd'') = Some ''move_absolute'' \<and>
             cmd ''speed'' \<noteq> None))"
proof (intro conjI allI impI)
  fix st' out assume "homeGantry limitHigh st = Some (st', out)"
  from homeGantry_result(1) [OF this] show "currentSpeed st' = currentSpeed st" by simp
next
  fix st' out
  assume "processUARTCommand limitHigh parsed st = Inr (st', out) \<and>
        currentSpeed st' \<noteq> currentSpeed st"
  then show "\<exists>cmd. parsed = Some cmd \<and> as_cstr (cmd ''cmd'') = Some ''move_absolute'' \<and>
             cmd ''speed'' \<noteq> None"
    using processUARTCommand_speed by blast
qed (simp_all add: initial_state_def DEFAULT_SPEED_def MAX_SPEED_def setup_boot_state
    stepMotors_speed motion_def)

theorem speed_set_only_by_move_absolute_witness:
  "processUARTCommand switch_open (Some cmd_move_speed_9000) scenario_moving =
     Inr (scenario_moving\<lparr>currentSpeed := 9000, stepDelay := 111\<rparr>,
          [Debug ''Moving to ('', DebugNum 10, Debug '', '', DebugNum 0, Debug '')'']) \<and>
   currentSpeed (scenario_moving\<lparr>currentSpeed := 9000, stepDelay := 111\<rparr>)
     \<noteq> currentSpeed scenario_moving \<and>
   (\<exists>cmd. Some cmd_move_speed_9000 = Some cmd \<and>
      as_cstr (cmd ''cmd'') = Some ''move_absolute'' \<and> cmd ''speed'' \<noteq> None)"
proof -
  have p: "processUARTCommand switch_open (Some cmd_move_speed_9000) scenario_moving =
     Inr (scenario_moving\<lparr>currentSpeed := 9000, stepDelay := 111\<rparr>,
          [Debug ''Moving to ('', DebugNum 10, Debug '', '', DebugNum 0, Debug '')''])"
    by (simp add: processUARTCommand_def cmd_move_speed_9000_def as_cstr_def as_float_def
      or_float_def set_speed_def delay_of_9000 moveToAbsolute_def constrain_def
      MAX_X_MM_def MAX_Y_MM_def STEPS_PER_MM_def trunc_def
      scenario_moving_def initial_state_def DEFAULT_SPEED_def)
  have n: "currentSpeed (scenario_moving\<lparr>currentSpeed := 9000, stepDelay := 111\<rparr>)
     \<noteq> currentSpeed scenario_moving"
    by (simp add: scenario_moving_def initial_state_def DEFAULT_SPEED_def)
  show ?thesis
    using speed_set_only_by_move_absolute [where st = scenario_moving
        and limitHigh = switch_open and parsed = "Some cmd_move_speed_9000"] p n
    by blast
qed

subsection \<open>C9: malformed and unknown commands\<close>

text \<open>
  C9 says that a command with missing required fields, such as a move_absolute without
  x and y, is ignored and mutates no state. The handler reads each coordinate with the
  default 0: with the gantry homed and idle at \<open>(2, 0)\<close>, the command
  \<open>{"cmd":"move_absolute"}\<close> sets the target to \<open>(0, 0)\<close> and starts a move.
\<close>

theorem move_without_xy_moves_to_origin:
  "reachable st_stopped \<and> cmd_move_bare ''x'' = None \<and> cmd_move_bare ''y'' = None \<and>
   \<not> isMoving st_stopped \<and> targetStepsX st_stopped = 2 \<and> currentStepsX st_stopped = 2 \<and>
   result_state (processUARTCommand switch_open (Some cmd_move_bare) st_stopped) =
     Some (st_stopped\<lparr>targetStepsX := 0, targetStepsY := 0, isMoving := True\<rparr>)"
proof -
  have "result_state (processUARTCommand switch_open (Some cmd_move_bare) st_stopped) =
     Some (st_stopped\<lparr>targetStepsX := 0, targetStepsY := 0, isMoving := True\<rparr>)"
    by (simp add: processUARTCommand_def cmd_move_bare_def as_cstr_def
      or_float_def moveToAbsolute_def constrain_def
      MAX_X_MM_def MAX_Y_MM_def STEPS_PER_MM_def trunc_def
      result_state_def st_stopped_def st_underway_def scenario_moving_def initial_state_def)
  moreover have "cmd_move_bare ''x'' = None" "cmd_move_bare ''y'' = None"
    by (simp_all add: cmd_move_bare_def)
  ultimately show ?thesis using reachable_stopped st_stopped_facts by simp
qed

text \<open>
  C9, amended. A line that does not deserialise, a command without a string \<open>cmd\<close>
  member and a command of a kind that is not routed are logged on the debug port and
  ignored: the state is unchanged and nothing is sent to the host or to the motors. A
  move_absolute command without coordinates is not ignored: it is the move to
  \<open>(0, 0)\<close>, which, when homed, sets the target to \<open>(0, 0)\<close> and the state to moving.
\<close>

theorem ignored_commands:
  "processUARTCommand limitHigh None st = Inr (st, [Debug ''JSON parse error: '']) \<and>
   (as_cstr (cmd ''cmd'') = None \<longrightarrow>
      processUARTCommand limitHigh (Some cmd) st = Inr (st, [Debug ''No 'cmd' field in JSON''])) \<and>
   (as_cstr (cmd ''cmd'') = Some kind \<and> kind \<notin> set known_kinds \<longrightarrow>
      processUARTCommand limitHigh (Some cmd) st =
        Inr (st, [Debug ''Unknown command: '', Debug kind])) \<and>
   (as_cstr (cmd ''cmd'') = Some ''move_absolute'' \<and> cmd ''x'' = None \<and> cmd ''y'' = None \<and>
    cmd ''speed'' = None \<longrightarrow>
      processUARTCommand limitHigh (Some cmd) st = Inr (moveToAbsolute 0 0 st)) \<and>
   (isHomed st \<longrightarrow>
      fst (moveToAbsolute 0 0 st) = st\<lparr>targetStepsX := 0, targetStepsY := 0, isMoving := True\<rparr>)"
proof (intro conjI impI)
  show "processUARTCommand limitHigh None st = Inr (st, [Debug ''JSON parse error: ''])"
    by (simp add: processUARTCommand_def)
next
  assume "as_cstr (cmd ''cmd'') = None"
  then show "processUARTCommand limitHigh (Some cmd) st = Inr (st, [Debug ''No 'cmd' field in JSON''])"
    by (simp add: processUARTCommand_def)
next
  assume "as_cstr (cmd ''cmd'') = Some kind \<and> kind \<notin> set known_kinds"
  then show "processUARTCommand limitHigh (Some cmd) st =
        Inr (st, [Debug ''Unknown command: '', Debug kind])"
    by (simp add: processUARTCommand_def known_kinds_def)
next
  assume "as_cstr (cmd ''cmd'') = Some ''move_absolute'' \<and> cmd ''x'' = None \<and> cmd ''y'' = None \<and>
    cmd ''speed'' = None"
  then show "processUARTCommand limitHigh (Some cmd) st = Inr (moveToAbsolute 0 0 st)"
    by (simp add: processUARTCommand_def or_float_def)
next
  assume "isHomed st"
  then show "fst (moveToAbsolute 0 0 st) =
      st\<lparr>targetStepsX := 0, targetStepsY := 0, isMoving := True\<rparr>"
    by (simp add: moveToAbsolute_def constrain_def MAX_X_MM_def MAX_Y_MM_def trunc_def)
qed

theorem ignored_commands_witness:
  "as_cstr (cmd_dance ''cmd'') = Some ''dance'' \<and> ''dance'' \<notin> set known_kinds \<and>
   processUARTCommand switch_open (Some cmd_dance) scenario_moving =
     Inr (scenario_moving, [Debug ''Unknown command: '', Debug ''dance'']) \<and>
   as_cstr (Map.empty ''cmd'') = None \<and>
   processUARTCommand switch_open (Some Map.empty) scenario_moving =
     Inr (scenario_moving, [Debug ''No 'cmd' field in JSON'']) \<and>
   processUARTCommand switch_open (Some cmd_move_bare) st_stopped =
     Inr (moveToAbsolute 0 0 st_stopped) \<and>
   fst (moveToAbsolute 0 0 st_stopped) =
     st_stopped\<lparr>targetStepsX := 0, targetStepsY := 0, isMoving := True\<rparr>"
proof -
  have c: "as_cstr (cmd_dance ''cmd'') = Some ''dance''" "''dance'' \<notin> set known_kinds"
    by (simp_all add: cmd_dance_def as_cstr_def known_kinds_def)
  have e: "as_cstr (Map.empty ''cmd'') = None" by (simp add: as_cstr_def)
  have b: "as_cstr (cmd_move_bare ''cmd'') = Some ''move_absolute'' \<and>
      cmd_move_bare ''x'' = None \<and> cmd_move_bare ''y'' = None \<and> cmd_move_bare ''speed'' = None"
    by (simp add: cmd_move_bare_def as_cstr_def)
  have h: "isHomed st_stopped" by (simp add: st_stopped_facts)
  show ?thesis
    using ignored_commands [where cmd = cmd_dance and kind = "''dance''"
        and st = scenario_moving and limitHigh = switch_open]
      ignored_commands [where cmd = Map.empty and st = scenario_moving and limitHigh = switch_open]
      ignored_commands [where cmd = cmd_move_bare and st = st_stopped and limitHigh = switch_open]
      c e b h
    by simp
qed

subsection \<open>C10: the millimetre mirror\<close>

text \<open>
  C10. The millimetre position \<open>(currentPosX, currentPosY)\<close> equals the step counters
  divided by \<open>STEPS_PER_MM\<close> after \<open>setup()\<close> and in every reachable state, and every
  operation preserves this: a stepping tick, homing (which establishes it from any
  state), every command handler, a whole \<open>loop()\<close> iteration. Hence a position report,
  whether sent on arrival by \<open>stepMotors\<close> or on request by a command, carries the step
  counters divided by \<open>STEPS_PER_MM\<close>.
\<close>

theorem mirror_invariant:
  "mirror_ok (fst setup_boot) \<and>
   (reachable st \<longrightarrow> mirror_ok st) \<and>
   (mirror_ok st \<longrightarrow>
      mirror_ok (fst (stepMotors st now)) \<and>
      (\<forall>st' out. homeGantry limitHigh st = Some (st', out) \<longrightarrow> mirror_ok st') \<and>
      (\<forall>st' out. processUARTCommand limitHigh parsed st = Inr (st', out) \<longrightarrow> mirror_ok st') \<and>
      (\<forall>st' out. loop st now ls = Inr (st', out) \<longrightarrow> mirror_ok st') \<and>
      sendPositionUpdate st =
        [Uart (Position (real_of_int (currentStepsX st) / real_of_int STEPS_PER_MM)
                        (real_of_int (currentStepsY st) / real_of_int STEPS_PER_MM)
                        (isHomed st))] \<and>
      (\<forall>x y h. Uart (Position x y h) \<in> set (snd (stepMotors st now)) \<longrightarrow>
         x = real_of_int (currentStepsX st) / real_of_int STEPS_PER_MM \<and>
         y = real_of_int (currentStepsY st) / real_of_int STEPS_PER_MM) \<and>
      (\<forall>st' out x y h.
         processUARTCommand limitHigh parsed st = Inr (st', out) \<and>
         Uart (Position x y h) \<in> set out \<longrightarrow>
         x = real_of_int (currentStepsX st) / real_of_int STEPS_PER_MM \<and>
         y = real_of_int (currentStepsY st) / real_of_int STEPS_PER_MM))"
proof (intro conjI impI allI)
  show "mirror_ok (fst setup_boot)" by (simp add: setup_boot_state mirror_ok_initial)
next
  assume "reachable st" then show "mirror_ok st" by (rule reachable_mirror_ok)
next
  assume "mirror_ok st" then show "mirror_ok (fst (stepMotors st now))"
    by (rule stepMotors_mirror_ok)
next
  fix st' out assume "homeGantry limitHigh st = Some (st', out)"
  from homeGantry_result(1) [OF this] show "mirror_ok st'" by (simp add: mirror_ok_def)
next
  fix st' out
  assume "mirror_ok st" "processUARTCommand limitHigh parsed st = Inr (st', out)"
  then show "mirror_ok st'" using processUARTCommand_mirror_ok by blast
next
  fix st' out
  assume i: "mirror_ok st" and l: "loop st now ls = Inr (st', out)"
  show "mirror_ok st'"
    by (rule loop_invariant [of mirror_ok, OF stepMotors_mirror_ok processUARTCommand_mirror_ok l i])
next
  assume "mirror_ok st"
  then show "sendPositionUpdate st =
        [Uart (Position (real_of_int (currentStepsX st) / real_of_int STEPS_PER_MM)
                        (real_of_int (currentStepsY st) / real_of_int STEPS_PER_MM)
                        (isHomed st))]"
    by (simp add: sendPositionUpdate_def mirror_ok_def)
next
  fix x y h
  assume i: "mirror_ok st" and u: "Uart (Position x y h) \<in> set (snd (stepMotors st now))"
  from stepMotors_reports [OF u] i
  show "x = real_of_int (currentStepsX st) / real_of_int STEPS_PER_MM"
    by (simp add: mirror_ok_def)
next
  fix x y h
  assume i: "mirror_ok st" and u: "Uart (Position x y h) \<in> set (snd (stepMotors st now))"
  from stepMotors_reports [OF u] i
  show "y = real_of_int (currentStepsY st) / real_of_int STEPS_PER_MM"
    by (simp add: mirror_ok_def)
next
  fix st' out x y h
  assume i: "mirror_ok st"
    and u: "processUARTCommand limitHigh parsed st = Inr (st', out) \<and>
         Uart (Position x y h) \<in> set out"
  from processUARTCommand_reports [of limitHigh parsed st st' out x y h] u i
  show "x = real_of_int (currentStepsX st) / real_of_int STEPS_PER_MM"
    by (simp add: mirror_ok_def)
next
  fix st' out x y h
  assume i: "mirror_ok st"
    and u: "processUARTCommand limitHigh parsed st = Inr (st', out) \<and>
         Uart (Position x y h) \<in> set out"
  from processUARTCommand_reports [of limitHigh parsed st st' out x y h] u i
  show "y = real_of_int (currentStepsY st) / real_of_int STEPS_PER_MM"
    by (simp add: mirror_ok_def)
qed

theorem mirror_invariant_witness:
  "reachable scenario_moving \<and> mirror_ok scenario_moving \<and>
   mirror_ok (fst (stepMotors scenario_moving 500)) \<and>
   currentStepsX (fst (stepMotors scenario_moving 500)) = 1 \<and>
   currentPosX (fst (stepMotors scenario_moving 500)) = 1 / 80 \<and>
   sendPositionUpdate scenario_moving = [Uart (Position 0 0 True)]"
proof -
  have x: "currentStepsX (fst (stepMotors scenario_moving 500)) = 1"
    by (subst stepMotors_stepping)
      (simp_all add: scenario_moving_def initial_state_def rem_defs DEFAULT_SPEED_def)
  have h: "isHomed scenario_moving" "currentStepsX scenario_moving = 0"
    "currentStepsY scenario_moving = 0"
    by (simp_all add: scenario_moving_def initial_state_def)
  show ?thesis
    using mirror_invariant [of scenario_moving 500 switch_open None "[]"] reachable_scenario x h
    by (simp add: mirror_ok_def STEPS_PER_MM_def)
qed

end
